theory Spec2Isabelle
  imports Main "HOL-Library.Sublist"
begin

section \<open>Strings and numbers as the TypeScript sources render them\<close>

text \<open>
  Template literals such as \<open>`toolu_${Date.now()}`\<close> and \<open>`... after ${TOOL_EXECUTION_TIMEOUT}ms`\<close>
  render a non-negative integer in decimal.
\<close>

definition digit_char :: "nat \<Rightarrow> char" where
  "digit_char d = ''0123456789'' ! d"

function show_nat :: "nat \<Rightarrow> string" where
  "show_nat n = (if n < 10 then [digit_char n] else show_nat (n div 10) @ [digit_char (n mod 10)])"
  by pat_completeness auto
termination
  by (relation "measure id") auto

declare show_nat.simps [simp del]

definition apos :: string where
  "apos = [CHR 0x27]"

text \<open>
  A string is the list of its code units, which are taken to lie below 256.
  \<open>String.prototype.trim\<close> removes leading and trailing white space and line terminators;
  below 256 these are tab, line feed, vertical tab, form feed, carriage return, space and the
  no-break space.
\<close>

definition is_space :: "char \<Rightarrow> bool" where
  "is_space c = (c \<in> set [CHR 0x09, CHR 0x0A, CHR 0x0B, CHR 0x0C, CHR 0x0D, CHR 0x20, CHR 0xA0])"

definition trim :: "string \<Rightarrow> string" where
  "trim s = rev (dropWhile is_space (rev (dropWhile is_space s)))"

text \<open>\<open>Array.prototype.join\<close>.\<close>

fun join :: "string \<Rightarrow> string list \<Rightarrow> string" where
  "join sep [] = []"
| "join sep [x] = x"
| "join sep (x # y # ys) = x @ sep @ join sep (y # ys)"

section \<open>Promises under a timeout (server/lib/promise-extras)\<close>

text \<open>
  A pending asynchronous call either fulfils or rejects after some milliseconds, or never settles.
\<close>

datatype 'a promise = Fulfils nat 'a | Rejects nat string | Pending

datatype js_error = TimeoutError string | OtherError string

text \<open>
  Modelled from the spec: \<open>withTimeout\<close> of \<open>server/lib/promise-extras\<close>, which is imported by
  \<open>server/ollama.ts\<close> but is not among the sources. The spec bounds each call by the timeout and
  lets the call expire when the bound is reached: a promise that settles before the bound gives its
  own outcome, any other gives a \<open>TimeoutError\<close> carrying the message passed in. The second
  component is the time the caller has waited.
\<close>

fun withTimeout :: "'a promise \<Rightarrow> nat \<Rightarrow> string \<Rightarrow> (js_error + 'a) \<times> nat" where
  "withTimeout (Fulfils t v) ms msg = (if t < ms then (Inr v, t) else (Inl (TimeoutError msg), ms))"
| "withTimeout (Rejects t e) ms msg = (if t < ms then (Inl (OtherError e), t) else (Inl (TimeoutError msg), ms))"
| "withTimeout Pending ms msg = (Inl (TimeoutError msg), ms)"


section \<open>The Ollama provider (server/ollama.ts)\<close>

subsection \<open>Messages\<close>

datatype role = User | Assistant | Tool | System

record tool_call =
  tc_name :: string
  tc_arguments :: string

text \<open>Ollama's \<open>Message\<close>: \<open>tool_calls\<close> is optional.\<close>

record message =
  role :: role
  content :: string
  tool_calls :: "tool_call list option"

text \<open>
  The canonical \<open>MessageParam\<close>. The content of a \<open>tool_result\<close> block is either the value
  \<open>JSON.parse\<close> produced (kept as the JSON text that denotes it) or the raw string.
\<close>

datatype tool_content = Parsed string | Raw string

datatype content_block =
    TextBlock string
  | ToolUse string string string
  | ToolResult string tool_content

datatype param_content = Str string | Blocks "content_block list"

record message_param =
  mp_role :: role
  mp_content :: param_content

definition MAX_ITERATIONS :: nat where
  "MAX_ITERATIONS = 10"

definition TOOL_EXECUTION_TIMEOUT :: nat where
  "TOOL_EXECUTION_TIMEOUT = 60 * 1000"

definition OLLAMA_API_TIMEOUT :: nat where
  "OLLAMA_API_TIMEOUT = 5 * 60 * 1000"

subsection \<open>Conversion functions\<close>

text \<open>
  \<open>convertOllamaMessageToAnthropic\<close>. \<open>jsonParse s\<close> tells whether \<open>JSON.parse\<close> accepts \<open>s\<close>;
  \<open>now k\<close> is the value of the \<open>k\<close>-th reading of \<open>Date.now()\<close> made while the message is converted.
\<close>

definition tool_result_id :: "nat \<Rightarrow> string" where
  "tool_result_id t = ''toolu_'' @ show_nat t"

definition tool_use_id :: "string \<Rightarrow> nat \<Rightarrow> string" where
  "tool_use_id n t = ''toolu_'' @ n @ ''_'' @ show_nat t"

fun tool_use_blocks :: "(nat \<Rightarrow> nat) \<Rightarrow> nat \<Rightarrow> tool_call list \<Rightarrow> content_block list" where
  "tool_use_blocks now k [] = []"
| "tool_use_blocks now k (c # cs) =
     ToolUse (tool_use_id (tc_name c) (now k)) (tc_name c) (tc_arguments c) # tool_use_blocks now (Suc k) cs"

definition convertOllamaMessageToAnthropic ::
  "(string \<Rightarrow> bool) \<Rightarrow> (nat \<Rightarrow> nat) \<Rightarrow> message \<Rightarrow> message_param" where
  "convertOllamaMessageToAnthropic jsonParse now msg =
     (if role msg = Tool then
        \<lparr>mp_role = User,
         mp_content = Blocks [ToolResult (tool_result_id (now 0))
           (if jsonParse (content msg) then Parsed (content msg) else Raw (content msg))]\<rparr>
      else if role msg = Assistant \<and> tool_calls msg \<noteq> None then
        \<lparr>mp_role = Assistant,
         mp_content = Blocks ((if content msg \<noteq> [] then [TextBlock (content msg)] else [])
           @ tool_use_blocks now 0 (the (tool_calls msg)))\<rparr>
      else
        \<lparr>mp_role = role msg, mp_content = Str (content msg)\<rparr>)"

text \<open>
  \<open>convertAnthropicMessageToOllama\<close>; \<open>jsonStringify\<close> stands for \<open>JSON.stringify\<close> on the
  content of a \<open>tool_result\<close> block.
\<close>

fun is_tool_result :: "content_block \<Rightarrow> bool" where
  "is_tool_result (ToolResult i c) = True"
| "is_tool_result b = False"

fun block_string :: "content_block \<Rightarrow> string" where
  "block_string (TextBlock t) = t"
| "block_string (ToolUse i n inp) = ''[Requesting tool: '' @ n @ '']''"
| "block_string (ToolResult i c) = []"

definition convertAnthropicMessageToOllama ::
  "(tool_content \<Rightarrow> string) \<Rightarrow> message_param \<Rightarrow> message" where
  "convertAnthropicMessageToOllama jsonStringify msg =
     (case (mp_role msg, mp_content msg) of
        (User, Blocks bs) \<Rightarrow>
          (case find is_tool_result bs of
             Some (ToolResult i c) \<Rightarrow> \<lparr>role = Tool, content = jsonStringify c, tool_calls = None\<rparr>
           | _ \<Rightarrow> \<lparr>role = User, content = join [CHR 0x0A] (map block_string bs), tool_calls = None\<rparr>)
      | (r, Blocks bs) \<Rightarrow> \<lparr>role = r, content = join [CHR 0x0A] (map block_string bs), tool_calls = None\<rparr>
      | (r, Str s) \<Rightarrow> \<lparr>role = r, content = s, tool_calls = None\<rparr>)"

subsection \<open>Tool servers and the tool client map\<close>

text \<open>
  A tool server answers \<open>listTools\<close> with the names of its tools, or fails (\<open>None\<close>), and answers
  \<open>callTool\<close> with a promise of the JSON text of the response content. What a tool answers may
  depend on everything that happened before, which the conversation so far stands for.
\<close>

record tool_server =
  listTools :: "string list option"
  callTool :: "message list \<Rightarrow> tool_call \<Rightarrow> string promise"

text \<open>
  \<open>toolClientMap\<close>: each listed tool name is mapped to its client, a later server overriding an
  earlier one; a server whose listing fails contributes no tool.
\<close>

fun toolClientMap :: "tool_server list \<Rightarrow> (string \<rightharpoonup> tool_server)" where
  "toolClientMap [] = Map.empty"
| "toolClientMap (s # ss) =
     (\<lambda>n. case toolClientMap ss n of
            Some c \<Rightarrow> Some c
          | None \<Rightarrow> (if n \<in> set (case listTools s of None \<Rightarrow> [] | Some ts \<Rightarrow> ts) then Some s else None))"

subsection \<open>The tool loop\<close>

datatype loop_end = Completed | Thrown string

text \<open>
  What one run of the generator does: the messages it yields in order, the number of requests sent
  to the provider, and whether it returned or threw.
\<close>

record loop_result =
  emitted :: "message list"
  requests :: nat
  ending :: loop_end

definition api_timeout_message :: message where
  "api_timeout_message =
     \<lparr>role = Assistant,
      content = ''I apologize, but the AI service took too long to respond. Let'' @ apos
        @ ''s continue with what we have so far.'',
      tool_calls = None\<rparr>"

definition tool_not_found_message :: "string \<Rightarrow> message" where
  "tool_not_found_message n =
     \<lparr>role = Tool, content = ''System error: Tool '' @ apos @ n @ apos @ '' not found.'', tool_calls = None\<rparr>"

definition tool_timeout_text :: "string \<Rightarrow> string" where
  "tool_timeout_text n =
     ''Tool '' @ apos @ n @ apos @ '' execution timed out after '' @ show_nat TOOL_EXECUTION_TIMEOUT @ ''ms''"

definition tool_error_text :: "string \<Rightarrow> string \<Rightarrow> string" where
  "tool_error_text n e = ''Error executing tool '' @ apos @ n @ apos @ '': '' @ e"

text \<open>One tool call under its timeout: the outcome and the time waited for it.\<close>

definition call_tool_bounded :: "tool_server \<Rightarrow> message list \<Rightarrow> tool_call \<Rightarrow> (js_error + string) \<times> nat" where
  "call_tool_bounded client msgs c =
     withTimeout (callTool client msgs c) TOOL_EXECUTION_TIMEOUT
       (''Tool execution '' @ apos @ tc_name c @ apos @ '' timed out after ''
          @ show_nat TOOL_EXECUTION_TIMEOUT @ ''ms'')"

text \<open>The body of the loop over the tool calls of one response: the message pushed and yielded.\<close>

definition tool_call_message :: "(string \<rightharpoonup> tool_server) \<Rightarrow> message list \<Rightarrow> tool_call \<Rightarrow> message" where
  "tool_call_message clients msgs c =
     (case clients (tc_name c) of
        None \<Rightarrow> tool_not_found_message (tc_name c)
      | Some client \<Rightarrow>
          (case fst (call_tool_bounded client msgs c) of
             Inr resp \<Rightarrow> \<lparr>role = Tool, content = resp, tool_calls = None\<rparr>
           | Inl (TimeoutError m) \<Rightarrow> \<lparr>role = Tool, content = tool_timeout_text (tc_name c), tool_calls = None\<rparr>
           | Inl (OtherError e) \<Rightarrow> \<lparr>role = Tool, content = tool_error_text (tc_name c) e, tool_calls = None\<rparr>))"

fun process_tool_calls :: "(string \<rightharpoonup> tool_server) \<Rightarrow> message list \<Rightarrow> tool_call list \<Rightarrow> message list" where
  "process_tool_calls clients msgs [] = []"
| "process_tool_calls clients msgs (c # cs) =
     (let m = tool_call_message clients msgs c
      in m # process_tool_calls clients (msgs @ [m]) cs)"

definition has_tool_calls :: "message \<Rightarrow> bool" where
  "has_tool_calls m = (case tool_calls m of None \<Rightarrow> False | Some cs \<Rightarrow> \<not> length cs < 1)"

definition yield_then :: "message list \<Rightarrow> nat \<Rightarrow> loop_result \<Rightarrow> loop_result" where
  "yield_then ms k r = r\<lparr>emitted := ms @ emitted r, requests := k + requests r\<rparr>"

text \<open>The request to the provider under its timeout; \<open>chat k msgs\<close> is the \<open>k\<close>-th call of \<open>ollama.chat\<close>.\<close>

definition ollama_chat :: "(nat \<Rightarrow> message list \<Rightarrow> message promise) \<Rightarrow> nat \<Rightarrow> message list \<Rightarrow> js_error + message" where
  "ollama_chat chat k msgs =
     fst (withTimeout (chat k msgs) OLLAMA_API_TIMEOUT
           (''Ollama API call timed out after '' @ show_nat OLLAMA_API_TIMEOUT @ ''ms''))"

text \<open>
  The \<open>while\<close> loop, entered with \<open>iterationCount = i\<close> and the conversation \<open>msgs\<close>. \<open>chat k msgs\<close>
  is the provider's answer to the \<open>k\<close>-th request, sent with the conversation \<open>msgs\<close>.
\<close>

function tool_loop ::
  "(nat \<Rightarrow> message list \<Rightarrow> message promise) \<Rightarrow> (string \<rightharpoonup> tool_server) \<Rightarrow> nat \<Rightarrow> message list \<Rightarrow> loop_result" where
  "tool_loop chat clients i msgs =
     (if i < MAX_ITERATIONS then
        (case ollama_chat chat (Suc i) msgs of
           Inl (TimeoutError m) \<Rightarrow>
             yield_then [api_timeout_message] 1
               (tool_loop chat clients (Suc i) (msgs @ [api_timeout_message]))
         | Inl (OtherError e) \<Rightarrow> \<lparr>emitted = [], requests = 1, ending = Thrown e\<rparr>
         | Inr response \<Rightarrow>
             (if \<not> has_tool_calls response then \<lparr>emitted = [response], requests = 1, ending = Completed\<rparr>
              else
                (let results = process_tool_calls clients (msgs @ [response]) (the (tool_calls response))
                 in yield_then (response # results) 1
                      (tool_loop chat clients (Suc i) (msgs @ [response] @ results)))))
      else \<lparr>emitted = [], requests = 0, ending = Completed\<rparr>)"
  by pat_completeness (simp only: prod.inject)
termination
proof (relation "measure (\<lambda>(chat, clients, i, msgs). MAX_ITERATIONS - i)")
  show "wf (measure (\<lambda>(chat, clients, i, msgs). MAX_ITERATIONS - i))"
    by (rule wf_measure)
next
  fix chat :: "nat \<Rightarrow> message list \<Rightarrow> message promise"
    and clients :: "string \<rightharpoonup> tool_server" and i :: nat and msgs :: "message list"
  assume "i < MAX_ITERATIONS"
  then show "((chat, clients, Suc i, msgs @ [api_timeout_message]), (chat, clients, i, msgs))
      \<in> measure (\<lambda>(chat, clients, i, msgs). MAX_ITERATIONS - i)"
    by simp
next
  fix chat :: "nat \<Rightarrow> message list \<Rightarrow> message promise"
    and clients :: "string \<rightharpoonup> tool_server" and i :: nat and msgs :: "message list"
    and response :: message and results :: "message list"
  assume "i < MAX_ITERATIONS"
  then show "((chat, clients, Suc i, msgs @ [response] @ results), (chat, clients, i, msgs))
      \<in> measure (\<lambda>(chat, clients, i, msgs). MAX_ITERATIONS - i)"
    by simp
qed

declare tool_loop.simps [simp del]

text \<open>
  \<open>_executePromptWithTools\<close>: the previous messages are converted, the prompt is pushed and
  yielded when it is not blank, and the loop starts with \<open>iterationCount = 0\<close>.
\<close>

definition executePromptWithTools_gen ::
  "(tool_content \<Rightarrow> string) \<Rightarrow> (nat \<Rightarrow> message list \<Rightarrow> message promise) \<Rightarrow> string \<Rightarrow> tool_server list
     \<Rightarrow> message_param list option \<Rightarrow> loop_result" where
  "executePromptWithTools_gen jsonStringify chat prompt toolServers previousMessages =
     (let clients = toolClientMap toolServers;
          msgs = (case previousMessages of None \<Rightarrow> []
                  | Some ps \<Rightarrow> map (convertAnthropicMessageToOllama jsonStringify) ps)
      in if trim prompt \<noteq> [] then
           (let user = \<lparr>role = User, content = prompt, tool_calls = None\<rparr>
            in yield_then [user] 0 (tool_loop chat clients 0 (msgs @ [user])))
         else tool_loop chat clients 0 msgs)"

text \<open>
  \<open>executePromptWithTools\<close>: every yielded message is converted as it is emitted; \<open>clock j k\<close> is
  the \<open>k\<close>-th reading of \<open>Date.now()\<close> during the conversion of the \<open>j\<close>-th message.
\<close>

fun convert_all :: "(string \<Rightarrow> bool) \<Rightarrow> (nat \<Rightarrow> nat \<Rightarrow> nat) \<Rightarrow> nat \<Rightarrow> message list \<Rightarrow> message_param list" where
  "convert_all jsonParse clock j [] = []"
| "convert_all jsonParse clock j (m # ms) =
     convertOllamaMessageToAnthropic jsonParse (clock j) m # convert_all jsonParse clock (Suc j) ms"

definition executePromptWithTools ::
  "(string \<Rightarrow> bool) \<Rightarrow> (tool_content \<Rightarrow> string) \<Rightarrow> (nat \<Rightarrow> nat \<Rightarrow> nat)
     \<Rightarrow> (nat \<Rightarrow> message list \<Rightarrow> message promise) \<Rightarrow> string \<Rightarrow> tool_server list
     \<Rightarrow> message_param list option \<Rightarrow> message_param list \<times> loop_end" where
  "executePromptWithTools jsonParse jsonStringify clock chat prompt toolServers previousMessages =
     (let r = executePromptWithTools_gen jsonStringify chat prompt toolServers previousMessages
      in (convert_all jsonParse clock 0 (emitted r), ending r))"

subsection \<open>Example providers and tool servers\<close>

definition done_message :: message where
  "done_message = \<lparr>role = Assistant, content = ''done'', tool_calls = None\<rparr>"

definition get_call :: tool_call where
  "get_call = \<lparr>tc_name = ''get'', tc_arguments = ''{}''\<rparr>"

definition chat_done :: "nat \<Rightarrow> message list \<Rightarrow> message promise" where
  "chat_done k msgs = Fulfils 5 done_message"

definition chat_never :: "nat \<Rightarrow> message list \<Rightarrow> message promise" where
  "chat_never k msgs = Pending"

definition chat_late :: "nat \<Rightarrow> message list \<Rightarrow> message promise" where
  "chat_late k msgs = (if k \<le> 2 then Pending else Fulfils 5 done_message)"

definition chat_one_tool :: "nat \<Rightarrow> message list \<Rightarrow> message promise" where
  "chat_one_tool k msgs =
     (if k = 1 then Fulfils 5 \<lparr>role = Assistant, content = [], tool_calls = Some [get_call]\<rparr>
      else Fulfils 5 done_message)"

definition quick_server :: tool_server where
  "quick_server = \<lparr>listTools = Some [''get''], callTool = (\<lambda>msgs c. Fulfils 10 ''[]'')\<rparr>"








section \<open>The evaluation framework (server/evals/call-service.ts)\<close>

record grade_result =
  score :: int
  possible_score :: int
  grader_info :: string

record 'm scenario_result =
  sr_prompt :: string
  toolsDescription :: string
  messages :: "'m list"
  gradeResults :: "grade_result list"
  finalScore :: int
  finalScorePossible :: int

text \<open>\<open>messages[messages.length - 1]\<close>, which is \<open>undefined\<close> for an empty array.\<close>

definition final_message :: "'m list \<Rightarrow> 'm option" where
  "final_message ms = (if ms = [] then None else Some (last ms))"

text \<open>
  \<open>gradeViaSearchForContent\<close>. \<open>messagesToString\<close> of \<open>shared/prompt\<close> is not among the sources
  and is a parameter here: it gives the text of the messages passed to it, or throws.
  \<open>String.prototype.includes\<close> is \<open>sublist\<close>.
\<close>

definition gradeViaSearchForContent ::
  "('m option list \<Rightarrow> js_error + string) \<Rightarrow> string list \<Rightarrow> 'm list \<Rightarrow> js_error + grade_result" where
  "gradeViaSearchForContent messagesToString needles msgs =
     (case messagesToString [final_message msgs] of
        Inl e \<Rightarrow> Inl e
      | Inr lastMsg \<Rightarrow>
          (let found = foldl (\<lambda>acc needle. if sublist needle lastMsg then acc + 1 else acc) 0 needles;
               info = join '', '' (map (\<lambda>x. [CHR 0x22] @ x @ [CHR 0x22]) needles)
           in Inr \<lparr>score = found, possible_score = int (length needles),
                   grader_info = ''Looking for '' @ info\<rparr>))"

text \<open>
  \<open>runScenario\<close>. The provider's \<open>executePromptWithTools\<close>, drained with \<open>toArray\<close>, gives the
  messages or fails; \<open>asyncMap\<close> (of the package \<open>@anaisbetts/commands\<close>) applies the graders to
  the messages and gives their results, or fails when a grader does.
\<close>

definition runScenario ::
  "(string \<Rightarrow> 't \<Rightarrow> js_error + 'm list)
     \<Rightarrow> (('m list \<Rightarrow> js_error + grade_result) list \<Rightarrow> 'm list \<Rightarrow> js_error + grade_result list)
     \<Rightarrow> string \<Rightarrow> 't \<Rightarrow> string \<Rightarrow> ('m list \<Rightarrow> js_error + grade_result) list
     \<Rightarrow> js_error + 'm scenario_result" where
  "runScenario llm asyncMap prompt tools toolsDesc graders =
     (case llm prompt tools of
        Inl e \<Rightarrow> Inl e
      | Inr msgs \<Rightarrow>
          (case asyncMap graders msgs of
             Inl e \<Rightarrow> Inl e
           | Inr results \<Rightarrow>
               (let acc = foldl (\<lambda>acc x. (fst acc + score x, snd acc + possible_score x)) (0, 0) results
                in Inr \<lparr>sr_prompt = prompt, toolsDescription = toolsDesc, messages = msgs,
                        gradeResults = results, finalScore = fst acc, finalScorePossible = snd acc\<rparr>)))"

fun run_graders :: "('m list \<Rightarrow> js_error + grade_result) list \<Rightarrow> 'm list \<Rightarrow> js_error + grade_result list" where
  "run_graders [] ms = Inr []"
| "run_graders (g # gs) ms =
     (case g ms of
        Inl e \<Rightarrow> Inl e
      | Inr r \<Rightarrow> (case run_graders gs ms of Inl e \<Rightarrow> Inl e | Inr rs \<Rightarrow> Inr (r # rs)))"

definition plain_text :: "string option list \<Rightarrow> js_error + string" where
  "plain_text ms = Inr (concat (map (\<lambda>m. case m of None \<Rightarrow> [] | Some s \<Rightarrow> s) ms))"

definition example_llm :: "string \<Rightarrow> unit \<Rightarrow> js_error + string list" where
  "example_llm p t = Inr [''hello'', ''xabcd'']"

definition example_graders :: "(string list \<Rightarrow> js_error + grade_result) list" where
  "example_graders =
     [gradeViaSearchForContent plain_text [''ab'', ''zz'', ''cd''],
      gradeViaSearchForContent plain_text [''hello'']]"

definition example_scenario :: "string scenario_result" where
  "example_scenario =
     \<lparr>sr_prompt = ''p'', toolsDescription = ''d'', messages = [''hello'', ''xabcd''],
      gradeResults =
        [\<lparr>score = 2, possible_score = 3,
          grader_info = ''Looking for '' @ [CHR 0x22] @ ''ab'' @ [CHR 0x22] @ '', '' @ [CHR 0x22] @ ''zz''
            @ [CHR 0x22] @ '', '' @ [CHR 0x22] @ ''cd'' @ [CHR 0x22]\<rparr>,
         \<lparr>score = 0, possible_score = 1,
          grader_info = ''Looking for '' @ [CHR 0x22] @ ''hello'' @ [CHR 0x22]\<rparr>],
      finalScore = 2, finalScorePossible = 4\<rparr>"

section \<open>The hub client in test mode (server/lib/ha-ws-api)\<close>

datatype entity_target = Single string | Many "string list"

record call_service_options =
  cs_domain :: string
  cs_service :: string
  cs_service_data :: "string option"
  cs_target :: entity_target
  cs_return_response :: "bool option"

fun entity_ids :: "entity_target \<Rightarrow> string list" where
  "entity_ids (Single e) = [e]"
| "entity_ids (Many es) = es"

definition domain_prefix :: "string \<Rightarrow> string" where
  "domain_prefix e = takeWhile (\<lambda>ch. ch \<noteq> CHR ''.'') e"

definition domain_mismatch_text :: "string \<Rightarrow> string \<Rightarrow> string" where
  "domain_mismatch_text e d = ''Entity ID '' @ e @ '' doesn'' @ apos @ ''t match domain '' @ d"

text \<open>
  Modelled from the spec: \<open>LiveHomeAssistantApi.callService\<close> of \<open>server/lib/ha-ws-api\<close>, of which
  only the tests are among the sources. The spec: in test mode it validates that every
  \<open>entity_id\<close>'s domain prefix equals \<open>domain\<close> and returns success without calling the hub,
  otherwise it forwards to the hub client; it returns the response or null. The tests give the
  text of the error and the message sent to the hub. The state is the list of the messages sent
  through \<open>sendMessagePromise\<close>; \<open>hub\<close> is the hub's answer to a message.
\<close>

definition callService ::
  "bool \<Rightarrow> (call_service_options \<Rightarrow> js_error + string option) \<Rightarrow> call_service_options list
     \<Rightarrow> call_service_options \<Rightarrow> (js_error + string option) \<times> call_service_options list" where
  "callService testMode hub sent options =
     (if testMode then
        (case find (\<lambda>e. domain_prefix e \<noteq> cs_domain options) (entity_ids (cs_target options)) of
           Some e \<Rightarrow> (Inl (OtherError (domain_mismatch_text e (cs_domain options))), sent)
         | None \<Rightarrow> (Inr None, sent))
      else (hub options, sent @ [options]))"

definition light_on :: "entity_target \<Rightarrow> call_service_options" where
  "light_on t = \<lparr>cs_domain = ''light'', cs_service = ''turn_on'', cs_service_data = None,
                 cs_target = t, cs_return_response = None\<rparr>"

section \<open>The scheduling step (server/workflow/scheduler-step.ts)\<close>

record automation =
  hash :: string
  contents :: string
  fileName :: string

text \<open>
  A row of the \<open>signals\<close> table, with the columns the spec gives for a signal; the query of
  \<open>rescheduleAutomations\<close> reads \<open>automationHash\<close> and \<open>isDead\<close>, which is taken to be
  defined in every row. Reading and writing the tables is taken to succeed.
\<close>

record signal_row =
  sig_id :: nat
  sig_automationHash :: string
  sig_type :: string
  sig_data :: string
  isDead :: bool

datatype automation_type = Manual | DetermineSignal | ExecuteSignal

text \<open>A row of \<open>automationLogs\<close>; \<open>messageLog\<close> holds the messages that the row stores as JSON.\<close>

record automation_log_row =
  createdAt :: string
  log_type :: automation_type
  automationHash :: string
  messageLog :: "message_param list"

text \<open>
  The state that \<open>rescheduleAutomations\<close> works on: the two tables, and the automations for which
  the scheduling loop has been started, in order.
\<close>

record world =
  signals :: "signal_row list"
  automationLogs :: "automation_log_row list"
  schedulerRuns :: "automation list"

text \<open>
  What the step uses of the \<open>AutomationRuntime\<close>: the outcome of reading the memory file, the
  clock, and the scheduling loop, \<open>llmFactory(modelSpecFromAutomation(automation))
  .executePromptWithTools(schedulerPrompt(...), tools)\<close> drained with \<open>toArray\<close>. The loop is
  given the automation, the memory and the \<open>signals\<close> table, which its tools read and change; it
  gives the messages or fails, and the table as its tools left it.
\<close>

record runtime =
  memoryFile :: "js_error + string"
  nowISO :: string
  llmLoop :: "automation \<Rightarrow> string \<Rightarrow> signal_row list \<Rightarrow> (js_error + message_param list) \<times> signal_row list"

definition has_alive_signal :: "signal_row list \<Rightarrow> string \<Rightarrow> bool" where
  "has_alive_signal sigs h = (find (\<lambda>s. sig_automationHash s = h \<and> isDead s \<noteq> True) sigs \<noteq> None)"

definition determine_signal_row :: "runtime \<Rightarrow> automation \<Rightarrow> message_param list \<Rightarrow> automation_log_row" where
  "determine_signal_row rt a msgs =
     \<lparr>createdAt = nowISO rt, log_type = DetermineSignal, automationHash = hash a, messageLog = msgs\<rparr>"

definition runSchedulerForAutomation :: "runtime \<Rightarrow> world \<Rightarrow> automation \<Rightarrow> (js_error + unit) \<times> world" where
  "runSchedulerForAutomation rt w a =
     (case memoryFile rt of
        Inl e \<Rightarrow> (Inl e, w)
      | Inr memory \<Rightarrow>
          (let (res, sigs) = llmLoop rt a memory (signals w);
               w1 = w\<lparr>signals := sigs, schedulerRuns := schedulerRuns w @ [a]\<rparr>
           in case res of
                Inl e \<Rightarrow> (Inl e, w1)
              | Inr msgs \<Rightarrow>
                  (Inr (), w1\<lparr>automationLogs := automationLogs w1 @ [determine_signal_row rt a msgs]\<rparr>)))"

fun rescheduleAutomations :: "runtime \<Rightarrow> world \<Rightarrow> automation list \<Rightarrow> (js_error + unit) \<times> world" where
  "rescheduleAutomations rt w [] = (Inr (), w)"
| "rescheduleAutomations rt w (a # as) =
     (if has_alive_signal (signals w) (hash a) then rescheduleAutomations rt w as
      else (case runSchedulerForAutomation rt w a of
              (Inl e, w') \<Rightarrow> (Inl e, w')
            | (Inr u, w') \<Rightarrow> rescheduleAutomations rt w' as))"

subsection \<open>Example runtimes\<close>

text \<open>A runtime whose scheduling loop is the Ollama provider; its tools leave the signals alone.\<close>

definition ollama_runtime :: "(nat \<Rightarrow> message list \<Rightarrow> message promise) \<Rightarrow> runtime" where
  "ollama_runtime chat =
     \<lparr>memoryFile = Inr ''memory'', nowISO = ''2025-01-01T00:00:00.000Z'',
      llmLoop = (\<lambda>a memory sigs.
        (case executePromptWithTools (\<lambda>s. True) (\<lambda>c. []) (\<lambda>j k. 5) chat (contents a) [] None of
           (msgs, Completed) \<Rightarrow> Inr msgs
         | (msgs, Thrown e) \<Rightarrow> Inl (OtherError e),
         sigs))\<rparr>"

definition chat_refused :: "nat \<Rightarrow> message list \<Rightarrow> message promise" where
  "chat_refused k msgs = Rejects 3 ''connection refused''"

definition coffee :: automation where
  "coffee = \<lparr>hash = ''h1'', contents = ''Every morning at 7am turn on the coffee maker'', fileName = ''coffee.md''\<rparr>"

definition porch :: automation where
  "porch = \<lparr>hash = ''h2'', contents = ''When the front door opens, flash the porch light'', fileName = ''porch.md''\<rparr>"

definition empty_world :: world where
  "empty_world = \<lparr>signals = [], automationLogs = [], schedulerRuns = []\<rparr>"

definition coffee_scheduled :: world where
  "coffee_scheduled =
     \<lparr>signals = [\<lparr>sig_id = 1, sig_automationHash = ''h1'', sig_type = ''cron'', sig_data = ''0 7 * * *'',
                  isDead = False\<rparr>],
      automationLogs = [], schedulerRuns = []\<rparr>"

section \<open>The configuration file (server/api.ts)\<close>

text \<open>
  \<open>AppConfig\<close> of \<open>shared/types\<close> is not among the sources; its fields are those that
  \<open>loadConfig\<close> and \<open>saveConfig\<close> read and write. An optional field that is \<open>undefined\<close> is
  \<open>None\<close>.
\<close>

record openai_provider =
  providerName :: "string option"
  baseURL :: "string option"
  apiKey :: "string option"

record app_config =
  haBaseUrl :: "string option"
  haToken :: "string option"
  timezone :: "string option"
  automationModel :: string
  visionModel :: string
  anthropicApiKey :: "string option"
  ollamaHost :: "string option"
  openAIProviders :: "openai_provider list option"

subsection \<open>JavaScript objects as TOML tables\<close>

text \<open>
  The values that \<open>saveConfig\<close> stores and \<open>loadConfig\<close> reads: strings and tables. A table is
  a JavaScript object, kept as the list of its own properties in the order in which \<open>Object.keys\<close>
  and \<open>for ... in\<close> enumerate them: the array indices first, in ascending order, then the other
  keys in the order of their creation.
\<close>

datatype toml = TString string | TTable "(string \<times> toml) list"

type_synonym js_object = "(string \<times> toml) list"

definition is_digit :: "char \<Rightarrow> bool" where
  "is_digit ch = (ch \<in> set ''0123456789'')"

definition digits_value :: "string \<Rightarrow> int" where
  "digits_value s = foldl (\<lambda>n ch. 10 * n + (of_char ch - 48)) 0 s"

text \<open>An array index is the canonical decimal form of an integer below \<open>2^32 - 1\<close>.\<close>

definition is_array_index :: "string \<Rightarrow> bool" where
  "is_array_index k =
     (k \<noteq> [] \<and> list_all is_digit k \<and> (k = ''0'' \<or> hd k \<noteq> CHR ''0'') \<and> digits_value k < 4294967295)"

fun insert_index :: "js_object \<Rightarrow> string \<Rightarrow> toml \<Rightarrow> js_object" where
  "insert_index [] k v = [(k, v)]"
| "insert_index ((k', v') # rest) k v =
     (if is_array_index k' \<and> digits_value k' < digits_value k then (k', v') # insert_index rest k v
      else (k, v) # (k', v') # rest)"

text \<open>
  The assignment \<open>obj[k] = v\<close> on a plain object. Assigning to \<open>__proto__\<close> sets the prototype
  and creates no property of the object itself.
\<close>

definition js_put :: "js_object \<Rightarrow> string \<Rightarrow> toml \<Rightarrow> js_object" where
  "js_put obj k v =
     (if k = ''__proto__'' then obj
      else if k \<in> fst ` set obj then map (\<lambda>(k', v'). if k' = k then (k', v) else (k', v')) obj
      else if is_array_index k then insert_index obj k v
      else obj @ [(k, v)])"

definition js_delete :: "js_object \<Rightarrow> string \<Rightarrow> js_object" where
  "js_delete obj k = filter (\<lambda>(k', v'). k' \<noteq> k) obj"

definition js_object :: "(string \<times> toml) list \<Rightarrow> js_object" where
  "js_object es = foldl (\<lambda>obj (k, v). js_put obj k v) [] es"

fun is_inline :: "string \<times> toml \<Rightarrow> bool" where
  "is_inline (k, TString s) = True"
| "is_inline (k, TTable t) = False"

text \<open>
  The package \<open>@iarna/toml\<close> is not part of the repository. What is modelled of it is the order
  of a file and nothing else: \<open>toml.stringify\<close> writes the string values of a table before its
  sub-tables, as the format requires, each group in the order of the object's keys
  (\<open>toml_stringify\<close> gives the entries in the order of the file), and \<open>toml.parse\<close> builds every
  table by adding its keys in the order of the file (\<open>toml_parse\<close>). Strings and keys are taken
  to be written and read back unchanged.
\<close>

primrec toml_stringify :: "toml \<Rightarrow> toml" where
  "toml_stringify (TString s) = TString s"
| "toml_stringify (TTable es) =
     TTable (filter is_inline (map (map_prod id toml_stringify) es)
             @ filter (\<lambda>e. \<not> is_inline e) (map (map_prod id toml_stringify) es))"

primrec toml_parse :: "toml \<Rightarrow> toml" where
  "toml_parse (TString s) = TString s"
| "toml_parse (TTable es) = TTable (js_object (map (map_prod id toml_parse) es))"

subsection \<open>saveConfig\<close>

text \<open>The truthiness of an optional string: defined and not empty.\<close>

definition truthy :: "string option \<Rightarrow> bool" where
  "truthy x = (case x of None \<Rightarrow> False | Some s \<Rightarrow> s \<noteq> [])"

definition put_if :: "string option \<Rightarrow> string \<Rightarrow> (string \<Rightarrow> toml) \<Rightarrow> js_object \<Rightarrow> js_object" where
  "put_if x k f obj = (if truthy x then js_put obj k (f (the x)) else obj)"

text \<open>The body of the loop over \<open>config.openAIProviders\<close>, on the table \<open>tomlStructure.openai\<close>.\<close>

definition save_provider :: "js_object \<Rightarrow> openai_provider \<Rightarrow> js_object" where
  "save_provider openai provider =
     (if providerName provider = Some ''openai'' then put_if (apiKey provider) ''key'' TString openai
      else if truthy (providerName provider) then
        (let providerSection =
               put_if (apiKey provider) ''key'' TString (put_if (baseURL provider) ''base_url'' TString [])
         in if length providerSection > 0
            then js_put openai (the (providerName provider)) (TTable providerSection)
            else openai)
      else openai)"

definition tomlStructure :: "app_config \<Rightarrow> js_object" where
  "tomlStructure config =
     (let s1 = put_if (haBaseUrl config) ''ha_base_url'' TString [];
          s2 = put_if (haToken config) ''ha_token'' TString s1;
          s3 = put_if (timezone config) ''timezone'' TString s2;
          s4 = put_if (Some (automationModel config)) ''automation_model'' TString s3;
          s5 = put_if (Some (visionModel config)) ''vision_model'' TString s4;
          s6 = put_if (anthropicApiKey config) ''anthropic'' (\<lambda>k. TTable [(''key'', TString k)]) s5;
          s7 = put_if (ollamaHost config) ''ollama'' (\<lambda>h. TTable [(''host'', TString h)]) s6
      in case openAIProviders config of
           None \<Rightarrow> s7
         | Some providers \<Rightarrow>
             (if length providers > 0 then
                (let openai = foldl save_provider [] providers
                 in if length openai = 0 then js_delete (js_put s7 ''openai'' (TTable openai)) ''openai''
                    else js_put s7 ''openai'' (TTable openai))
              else s7))"

text \<open>\<open>saveConfig\<close>: what is written to the file.\<close>

definition saveConfig :: "app_config \<Rightarrow> toml" where
  "saveConfig config = toml_stringify (TTable (tomlStructure config))"

subsection \<open>loadConfig\<close>

definition get_string :: "js_object \<Rightarrow> string \<Rightarrow> string option" where
  "get_string obj k = (case map_of obj k of Some (TString s) \<Rightarrow> Some s | _ \<Rightarrow> None)"

definition get_table :: "js_object \<Rightarrow> string \<Rightarrow> js_object option" where
  "get_table obj k = (case map_of obj k of Some (TTable t) \<Rightarrow> Some t | _ \<Rightarrow> None)"

text \<open>The body of the loop over the keys of \<open>parsedToml.openai\<close>: the providers it pushes.\<close>

fun load_provider :: "string \<times> toml \<Rightarrow> openai_provider list" where
  "load_provider (k, TString providerData) =
     (if k = ''key'' then [\<lparr>providerName = Some ''openai'', baseURL = None, apiKey = Some providerData\<rparr>]
      else [])"
| "load_provider (k, TTable providerData) =
     [\<lparr>providerName = Some k, baseURL = get_string providerData ''base_url'',
       apiKey = get_string providerData ''key''\<rparr>]"

definition loadConfig :: "toml \<Rightarrow> app_config" where
  "loadConfig file =
     (case toml_parse file of
        TString s \<Rightarrow>
          \<lparr>haBaseUrl = None, haToken = None, timezone = None, automationModel = [], visionModel = [],
           anthropicApiKey = None, ollamaHost = None, openAIProviders = None\<rparr>
      | TTable parsedToml \<Rightarrow>
          (let providers = (case get_table parsedToml ''openai'' of
                              None \<Rightarrow> []
                            | Some openai \<Rightarrow> concat (map load_provider openai))
           in \<lparr>haBaseUrl = get_string parsedToml ''ha_base_url'',
               haToken = get_string parsedToml ''ha_token'',
               timezone = get_string parsedToml ''timezone'',
               automationModel = (case get_string parsedToml ''automation_model'' of None \<Rightarrow> [] | Some s \<Rightarrow> s),
               visionModel = (case get_string parsedToml ''vision_model'' of None \<Rightarrow> [] | Some s \<Rightarrow> s),
               anthropicApiKey = (case get_table parsedToml ''anthropic'' of
                                    None \<Rightarrow> None | Some t \<Rightarrow> get_string t ''key''),
               ollamaHost = (case get_table parsedToml ''ollama'' of
                               None \<Rightarrow> None | Some t \<Rightarrow> get_string t ''host''),
               openAIProviders = (if length providers = 0 then None else Some providers)\<rparr>))"


subsection \<open>Configurations that a file can hold\<close>

definition nonempty_if_defined :: "string option \<Rightarrow> bool" where
  "nonempty_if_defined x = (x \<noteq> Some [])"








subsection \<open>Example configurations\<close>




definition bare_config :: "openai_provider list \<Rightarrow> app_config" where
  "bare_config ps =
     \<lparr>haBaseUrl = None, haToken = None, timezone = None, automationModel = ''a'', visionModel = ''v'',
      anthropicApiKey = None, ollamaHost = None, openAIProviders = Some ps\<rparr>"

definition google :: "string \<Rightarrow> openai_provider" where
  "google k = \<lparr>providerName = Some ''google'', baseURL = Some ''u'', apiKey = Some k\<rparr>"

definition openai_default :: openai_provider where
  "openai_default = \<lparr>providerName = Some ''openai'', baseURL = None, apiKey = Some ''k0''\<rparr>"

definition seven :: openai_provider where
  "seven = \<lparr>providerName = Some ''7'', baseURL = Some ''u'', apiKey = Some ''k7''\<rparr>"

definition nameless :: openai_provider where
  "nameless = \<lparr>providerName = None, baseURL = None, apiKey = Some ''k''\<rparr>"

section \<open>Properties of the tool loop\<close>

lemma requests_yield_then: "requests (yield_then ms k r) = k + requests r"
  by (simp add: yield_then_def)

lemma emitted_yield_then: "emitted (yield_then ms k r) = ms @ emitted r"
  by (simp add: yield_then_def)


lemma tool_loop_requests_le: "requests (tool_loop chat clients i msgs) \<le> MAX_ITERATIONS - i"
proof (induction chat clients i msgs rule: tool_loop.induct)
  case (1 chat clients i msgs)
  show ?case
  proof (cases "i < MAX_ITERATIONS")
    case False
    then show ?thesis by (simp add: tool_loop.simps [of chat clients i msgs])
  next
    case True
    show ?thesis
    proof (cases "ollama_chat chat (Suc i) msgs")
      case (Inl err)
      show ?thesis
      proof (cases err)
        case (TimeoutError m)
        with 1(1) [OF True Inl] True Inl show ?thesis
          by (simp add: tool_loop.simps [of chat clients i msgs] requests_yield_then)
      next
        case (OtherError e)
        with True Inl show ?thesis
          by (simp add: tool_loop.simps [of chat clients i msgs])
      qed
    next
      case (Inr response)
      show ?thesis
      proof (cases "has_tool_calls response")
        case False
        with True Inr show ?thesis
          by (simp add: tool_loop.simps [of chat clients i msgs])
      next
        case True2: True
        from 1(2) [OF True Inr _ refl] True2
        have "requests (tool_loop chat clients (Suc i)
                 (msgs @ [response] @ process_tool_calls clients (msgs @ [response]) (the (tool_calls response))))
               \<le> MAX_ITERATIONS - Suc i"
          by simp
        with True Inr True2 show ?thesis
          by (simp add: tool_loop.simps [of chat clients i msgs] requests_yield_then Let_def)
      qed
    qed
  qed
qed

lemma tool_loop_stops:
  assumes "i < MAX_ITERATIONS" "ollama_chat chat (Suc i) msgs = Inr response" "\<not> has_tool_calls response"
  shows "tool_loop chat clients i msgs = \<lparr>emitted = [response], requests = 1, ending = Completed\<rparr>"
  using assms by (simp add: tool_loop.simps [of chat clients i msgs])

lemma tool_loop_timeout:
  assumes "i < MAX_ITERATIONS" "ollama_chat chat (Suc i) msgs = Inl (TimeoutError m)"
  shows "tool_loop chat clients i msgs =
     yield_then [api_timeout_message] 1 (tool_loop chat clients (Suc i) (msgs @ [api_timeout_message]))"
  using assms by (simp add: tool_loop.simps [of chat clients i msgs])


lemma tool_loop_throw:
  assumes "i < MAX_ITERATIONS" "ollama_chat chat (Suc i) msgs = Inl (OtherError e)"
  shows "tool_loop chat clients i msgs = \<lparr>emitted = [], requests = 1, ending = Thrown e\<rparr>"
  using assms by (simp add: tool_loop.simps [of chat clients i msgs])

lemma tool_loop_exhausted:
  assumes "\<not> i < MAX_ITERATIONS"
  shows "tool_loop chat clients i msgs = \<lparr>emitted = [], requests = 0, ending = Completed\<rparr>"
  using assms by (simp add: tool_loop.simps [of chat clients i msgs])


lemma digit_char_digit: "d < 10 \<Longrightarrow> digit_char d \<in> set ''0123456789''"
proof -
  assume "d < 10"
  then have "d \<in> {0, 1, 2, 3, 4, 5, 6, 7, 8, 9}" by auto
  then show ?thesis by (auto simp: digit_char_def)
qed

lemma show_nat_digits: "set (show_nat n) \<subseteq> set ''0123456789''"
proof (induction n rule: show_nat.induct)
  case (1 n)
  show ?case
  proof (cases "n < 10")
    case True
    with digit_char_digit [of n] show ?thesis
      by (simp add: show_nat.simps [of n])
  next
    case False
    have "digit_char (n mod 10) \<in> set ''0123456789''"
      by (rule digit_char_digit) simp
    with 1 False show ?thesis
      by (simp add: show_nat.simps [of n])
  qed
qed

lemma fabricated_ids_differ: "tool_use_id n t \<noteq> tool_result_id t'"
proof
  assume "tool_use_id n t = tool_result_id t'"
  then have "n @ ''_'' @ show_nat t = show_nat t'"
    by (simp add: tool_use_id_def tool_result_id_def)
  then have "CHR ''_'' \<in> set (show_nat t')"
    by (metis append_Cons in_set_conv_decomp)
  with show_nat_digits [of t'] show False by auto
qed



lemma tool_loop_all_timeouts:
  assumes tmo: "\<And>k ms. \<exists>m. ollama_chat chat k ms = Inl (TimeoutError m)"
  shows "tool_loop chat clients i msgs =
     \<lparr>emitted = replicate (MAX_ITERATIONS - i) api_timeout_message,
      requests = MAX_ITERATIONS - i, ending = Completed\<rparr>"
  using tmo
proof (induction chat clients i msgs rule: tool_loop.induct)
  case (1 chat clients i msgs)
  note tmo = "1.prems"
  show ?case
  proof (cases "i < MAX_ITERATIONS")
    case False
    then show ?thesis by (simp add: tool_loop_exhausted)
  next
    case True
    from tmo obtain m where m: "ollama_chat chat (Suc i) msgs = Inl (TimeoutError m)" by blast
    from "1.IH"(1) [OF True m] tmo
    have "tool_loop chat clients (Suc i) (msgs @ [api_timeout_message]) =
      \<lparr>emitted = replicate (MAX_ITERATIONS - Suc i) api_timeout_message,
       requests = MAX_ITERATIONS - Suc i, ending = Completed\<rparr>"
      by simp
    moreover from True have "MAX_ITERATIONS - i = Suc (MAX_ITERATIONS - Suc i)" by simp
    ultimately show ?thesis
      using True m by (simp add: tool_loop_timeout yield_then_def)
  qed
qed

lemma trim_empty_iff: "trim s = [] \<longleftrightarrow> (\<forall>c\<in>set s. is_space c)"
proof -
  have a: "trim s = [] \<longleftrightarrow> (\<forall>x\<in>set (dropWhile is_space s). is_space x)"
    by (simp add: trim_def dropWhile_eq_Nil_conv)
  have "dropWhile is_space s = []" if all: "\<forall>x\<in>set (dropWhile is_space s). is_space x"
  proof (rule ccontr)
    assume ne: "dropWhile is_space s \<noteq> []"
    then have "\<not> is_space (hd (dropWhile is_space s))" by (rule hd_dropWhile)
    moreover from ne have "hd (dropWhile is_space s) \<in> set (dropWhile is_space s)" by simp
    ultimately show False using all by blast
  qed
  moreover have "\<forall>x\<in>set (dropWhile is_space s). is_space x" if "dropWhile is_space s = []"
    using that by (metis empty_iff list.set(1))
  ultimately have b: "(\<forall>x\<in>set (dropWhile is_space s). is_space x) \<longleftrightarrow> dropWhile is_space s = []"
    by blast
  have c: "dropWhile is_space s = [] \<longleftrightarrow> (\<forall>c\<in>set s. is_space c)"
    by (rule dropWhile_eq_Nil_conv)
  from a b c show ?thesis by blast
qed








subsection \<open>Termination of the tool loop\<close>

text \<open>
  Claim C3. The tool loop sends at most \<open>MAX_ITERATIONS\<close> (10) requests to the provider, whatever
  the provider and the tools answer: this holds for a full run of \<open>_executePromptWithTools\<close> and
  for the loop entered at any iteration count \<open>i\<close>, where at most \<open>MAX_ITERATIONS - i\<close> requests
  remain. As soon as the provider returns a message that carries no tool calls the loop ends: that
  message is the last one emitted and no further request is made. \<open>tool_loop\<close> is a total function
  (its termination is proved with the measure \<open>MAX_ITERATIONS - i\<close>) whose result holds the emitted
  messages as a list, so the emitted sequence is finite for every input.
\<close>

theorem tool_loop_terminates:
  "requests (executePromptWithTools_gen js chat prompt servers prev) \<le> MAX_ITERATIONS
   \<and> MAX_ITERATIONS = 10
   \<and> requests (tool_loop chat clients i msgs) \<le> MAX_ITERATIONS - i
   \<and> (i < MAX_ITERATIONS \<longrightarrow> ollama_chat chat (Suc i) msgs = Inr response \<longrightarrow> \<not> has_tool_calls response \<longrightarrow>
        tool_loop chat clients i msgs = \<lparr>emitted = [response], requests = 1, ending = Completed\<rparr>)"
proof -
  have "requests (executePromptWithTools_gen js chat prompt servers prev) \<le> MAX_ITERATIONS"
    using tool_loop_requests_le [of chat "toolClientMap servers" 0]
    by (simp add: executePromptWithTools_gen_def Let_def requests_yield_then)
  moreover have "MAX_ITERATIONS = 10" by (simp add: MAX_ITERATIONS_def)
  ultimately show ?thesis
    using tool_loop_requests_le [of chat clients i msgs] by (simp add: tool_loop_stops)
qed

theorem tool_loop_terminates_witness:
  "0 < MAX_ITERATIONS \<and> ollama_chat chat_done (Suc 0) [] = Inr done_message \<and> \<not> has_tool_calls done_message
   \<and> tool_loop chat_done Map.empty 0 [] = \<lparr>emitted = [done_message], requests = 1, ending = Completed\<rparr>"
proof -
  have a: "0 < MAX_ITERATIONS" by (simp add: MAX_ITERATIONS_def)
  have b: "ollama_chat chat_done (Suc 0) [] = Inr done_message"
    by (simp add: ollama_chat_def chat_done_def OLLAMA_API_TIMEOUT_def)
  have c: "\<not> has_tool_calls done_message"
    by (simp add: has_tool_calls_def done_message_def)
  from a b c tool_loop_terminates [of "\<lambda>c. []" chat_done "[]" "[]" None Map.empty 0 "[]" done_message]
  show ?thesis by simp
qed

subsection \<open>Provider timeouts\<close>

text \<open>
  Claim C4, as stated, fails: the provider that times out on the first two requests and answers
  the third shows that two timeouts in a row do not end the loop. Both timeouts are announced by
  the synthetic assistant message, and then a third request is sent, whose answer is emitted.
\<close>

theorem tool_loop_double_timeout_counterexample:
  "ollama_chat chat_late 1 [\<lparr>role = User, content = ''hi'', tool_calls = None\<rparr>]
     = Inl (TimeoutError (''Ollama API call timed out after '' @ show_nat OLLAMA_API_TIMEOUT @ ''ms''))
   \<and> ollama_chat chat_late 2 [\<lparr>role = User, content = ''hi'', tool_calls = None\<rparr>, api_timeout_message]
     = Inl (TimeoutError (''Ollama API call timed out after '' @ show_nat OLLAMA_API_TIMEOUT @ ''ms''))
   \<and> executePromptWithTools_gen (\<lambda>c. []) chat_late ''hi'' [] None =
     \<lparr>emitted = [\<lparr>role = User, content = ''hi'', tool_calls = None\<rparr>, api_timeout_message,
                 api_timeout_message, done_message],
      requests = 3, ending = Completed\<rparr>"
  by (simp add: executePromptWithTools_gen_def tool_loop.simps ollama_chat_def MAX_ITERATIONS_def
      yield_then_def trim_def is_space_def chat_late_def OLLAMA_API_TIMEOUT_def has_tool_calls_def
      done_message_def)

text \<open>
  Claim C4, amended. When a request to the provider times out, the loop appends the synthetic
  assistant message that announces the timeout, emits it, and goes on with the next iteration,
  where the provider is asked again; this is repeated for every timeout while fewer than
  \<open>MAX_ITERATIONS\<close> requests have been made. Timeouts in a row do not end the loop early: with a
  provider that times out on every request, the loop entered at iteration count \<open>i\<close> makes all
  the \<open>MAX_ITERATIONS - i\<close> remaining requests, emits as many timeout messages, and returns.
\<close>

theorem tool_loop_timeout_continues:
  "(i < MAX_ITERATIONS \<longrightarrow> ollama_chat chat (Suc i) msgs = Inl (TimeoutError m) \<longrightarrow>
      tool_loop chat clients i msgs =
        yield_then [api_timeout_message] 1 (tool_loop chat clients (Suc i) (msgs @ [api_timeout_message]))
      \<and> role api_timeout_message = Assistant)
   \<and> ((\<forall>k ms. \<exists>m. ollama_chat chat k ms = Inl (TimeoutError m)) \<longrightarrow>
      tool_loop chat clients i msgs =
        \<lparr>emitted = replicate (MAX_ITERATIONS - i) api_timeout_message,
         requests = MAX_ITERATIONS - i, ending = Completed\<rparr>)"
proof (intro conjI impI)
  assume "i < MAX_ITERATIONS" "ollama_chat chat (Suc i) msgs = Inl (TimeoutError m)"
  then show "tool_loop chat clients i msgs =
      yield_then [api_timeout_message] 1 (tool_loop chat clients (Suc i) (msgs @ [api_timeout_message]))"
    by (rule tool_loop_timeout)
next
  show "role api_timeout_message = Assistant"
    by (simp add: api_timeout_message_def)
next
  assume "\<forall>k ms. \<exists>m. ollama_chat chat k ms = Inl (TimeoutError m)"
  then show "tool_loop chat clients i msgs =
      \<lparr>emitted = replicate (MAX_ITERATIONS - i) api_timeout_message,
       requests = MAX_ITERATIONS - i, ending = Completed\<rparr>"
    by (intro tool_loop_all_timeouts) blast
qed

theorem tool_loop_timeout_continues_witness:
  "(\<forall>k ms. \<exists>m. ollama_chat chat_never k ms = Inl (TimeoutError m))
   \<and> tool_loop chat_never Map.empty 0 [] =
        \<lparr>emitted = replicate 10 api_timeout_message, requests = 10, ending = Completed\<rparr>"
proof -
  have a: "\<forall>k ms. \<exists>m. ollama_chat chat_never k ms = Inl (TimeoutError m)"
    by (simp add: ollama_chat_def chat_never_def)
  with tool_loop_timeout_continues [of 0 chat_never "[]" undefined Map.empty]
  show ?thesis by (simp add: MAX_ITERATIONS_def)
qed

subsection \<open>Unknown tools\<close>



subsection \<open>Tool timeouts\<close>




subsection \<open>Blank prompts\<close>

text \<open>
  Claim C9. When the prompt is empty or made of white space only, no user message is pushed or
  emitted: the run is the loop started on the converted previous messages alone, the first request
  to the model carries exactly these, and the first emitted message, if there is one, is the
  synthetic timeout message or the provider's first answer, hence an assistant message and not a
  user message when the provider answers in the assistant role. For every other prompt the first
  emitted message is the user message that carries the prompt.
\<close>

theorem blank_prompt_not_emitted:
  "((\<forall>ch\<in>set prompt. is_space ch) \<longrightarrow>
      executePromptWithTools_gen js chat prompt servers prev =
        tool_loop chat (toolClientMap servers) 0
          (case prev of None \<Rightarrow> [] | Some ps \<Rightarrow> map (convertAnthropicMessageToOllama js) ps)
      \<and> (\<forall>m\<in>set (take 1 (emitted (executePromptWithTools_gen js chat prompt servers prev))).
            m = api_timeout_message
            \<or> ollama_chat chat 1
                 (case prev of None \<Rightarrow> [] | Some ps \<Rightarrow> map (convertAnthropicMessageToOllama js) ps) = Inr m)
      \<and> ((\<forall>m. ollama_chat chat 1
                 (case prev of None \<Rightarrow> [] | Some ps \<Rightarrow> map (convertAnthropicMessageToOllama js) ps) = Inr m
                \<longrightarrow> role m = Assistant) \<longrightarrow>
           (\<forall>m\<in>set (take 1 (emitted (executePromptWithTools_gen js chat prompt servers prev))).
              role m = Assistant \<and> role m \<noteq> User)))
   \<and> (\<not> (\<forall>ch\<in>set prompt. is_space ch) \<longrightarrow>
        take 1 (emitted (executePromptWithTools_gen js chat prompt servers prev)) =
          [\<lparr>role = User, content = prompt, tool_calls = None\<rparr>])"
proof -
  let ?msgs = "case prev of None \<Rightarrow> [] | Some ps \<Rightarrow> map (convertAnthropicMessageToOllama js) ps"
  let ?run = "executePromptWithTools_gen js chat prompt servers prev"
  have first: "\<forall>m\<in>set (take 1 (emitted (tool_loop chat clients 0 msgs))).
      m = api_timeout_message \<or> ollama_chat chat 1 msgs = Inr m" for clients msgs
  proof (cases "ollama_chat chat (Suc 0) msgs")
    case (Inl err)
    then show ?thesis
      by (cases err) (simp_all add: tool_loop.simps [of chat clients 0 msgs] MAX_ITERATIONS_def yield_then_def)
  next
    case (Inr response)
    then show ?thesis
      by (simp add: tool_loop.simps [of chat clients 0 msgs] MAX_ITERATIONS_def yield_then_def Let_def)
  qed
  have blank: "?run = tool_loop chat (toolClientMap servers) 0 ?msgs" if "\<forall>ch\<in>set prompt. is_space ch"
    using that by (simp add: executePromptWithTools_gen_def trim_empty_iff Let_def)
  have nonblank: "take 1 (emitted ?run) = [\<lparr>role = User, content = prompt, tool_calls = None\<rparr>]"
    if "\<not> (\<forall>ch\<in>set prompt. is_space ch)"
  proof -
    from that have "trim prompt \<noteq> []" by (simp add: trim_empty_iff)
    then show ?thesis
      by (simp add: executePromptWithTools_gen_def Let_def yield_then_def)
  qed
  have roles: "\<forall>m\<in>set (take 1 (emitted ?run)). role m = Assistant \<and> role m \<noteq> User"
    if b: "\<forall>ch\<in>set prompt. is_space ch"
      and r: "\<forall>m. ollama_chat chat 1 ?msgs = Inr m \<longrightarrow> role m = Assistant"
  proof
    fix m assume "m \<in> set (take 1 (emitted ?run))"
    with blank [OF b] first [of "toolClientMap servers" ?msgs]
    have "m = api_timeout_message \<or> ollama_chat chat 1 ?msgs = Inr m" by simp
    with r have "role m = Assistant" by (auto simp: api_timeout_message_def)
    then show "role m = Assistant \<and> role m \<noteq> User" by simp
  qed
  show ?thesis
  proof (intro conjI impI)
    assume "\<forall>ch\<in>set prompt. is_space ch"
    then show "?run = tool_loop chat (toolClientMap servers) 0 ?msgs" by (rule blank)
  next
    assume "\<forall>ch\<in>set prompt. is_space ch"
    from blank [OF this] first [of "toolClientMap servers" ?msgs]
    show "\<forall>m\<in>set (take 1 (emitted ?run)).
        m = api_timeout_message \<or> ollama_chat chat 1 ?msgs = Inr m"
      by simp
  next
    assume "\<forall>ch\<in>set prompt. is_space ch"
      and "\<forall>m. ollama_chat chat 1 ?msgs = Inr m \<longrightarrow> role m = Assistant"
    then show "\<forall>m\<in>set (take 1 (emitted ?run)). role m = Assistant \<and> role m \<noteq> User"
      by (rule roles)
  next
    assume "\<not> (\<forall>ch\<in>set prompt. is_space ch)"
    then show "take 1 (emitted ?run) = [\<lparr>role = User, content = prompt, tool_calls = None\<rparr>]"
      by (rule nonblank)
  qed
qed

theorem blank_prompt_not_emitted_witness:
  "is_space CHR '' '' \<and> \<not> is_space CHR ''h''
   \<and> ollama_chat chat_done 1 [] = Inr done_message \<and> role done_message = Assistant
   \<and> executePromptWithTools_gen (\<lambda>c. []) chat_done '' '' [] None = tool_loop chat_done Map.empty 0 []
   \<and> take 1 (emitted (executePromptWithTools_gen (\<lambda>c. []) chat_done ''hi'' [] None)) =
        [\<lparr>role = User, content = ''hi'', tool_calls = None\<rparr>]"
proof -
  have a: "\<forall>ch\<in>set '' ''. is_space ch" by (simp add: is_space_def)
  have b: "\<not> (\<forall>ch\<in>set ''hi''. is_space ch)" by (simp add: is_space_def)
  have c: "ollama_chat chat_done 1 [] = Inr done_message"
    by (simp add: ollama_chat_def chat_done_def OLLAMA_API_TIMEOUT_def)
  have d: "role done_message = Assistant" by (simp add: done_message_def)
  from a blank_prompt_not_emitted [where prompt = "'' ''" and js = "\<lambda>c. []" and chat = chat_done
      and servers = "[]" and prev = None]
  have e: "executePromptWithTools_gen (\<lambda>c. []) chat_done '' '' [] None = tool_loop chat_done Map.empty 0 []"
    by simp
  from b blank_prompt_not_emitted [where prompt = "''hi''" and js = "\<lambda>c. []" and chat = chat_done
      and servers = "[]" and prev = None]
  have f: "take 1 (emitted (executePromptWithTools_gen (\<lambda>c. []) chat_done ''hi'' [] None)) =
        [\<lparr>role = User, content = ''hi'', tool_calls = None\<rparr>]"
    by simp
  have g: "is_space CHR '' '' \<and> \<not> is_space CHR ''h''" by (simp add: is_space_def)
  from g c d e f show ?thesis by simp
qed

subsection \<open>Identifiers of tool uses and tool results\<close>

text \<open>
  Claim C2 requires every \<open>tool_use\<close> block with id \<open>X\<close> to be followed, before the next
  assistant message, by a \<open>tool_result\<close> block whose \<open>tool_use_id\<close> is \<open>X\<close>. The run below, one
  tool call answered by its tool, is what the Ollama provider emits after the conversion: the
  \<open>tool_use\<close> block carries the id \<open>toolu_get_5\<close>, the \<open>tool_result\<close> block that answers it
  carries \<open>toolu_5\<close>, and no \<open>tool_result\<close> with the id \<open>toolu_get_5\<close> appears before the next
  assistant message. The two blocks are equal in number; the ids, fabricated separately from the
  clock, cannot agree (\<open>fabricated_ids_differ\<close>).
\<close>

theorem fabricated_ids_unpaired:
  "executePromptWithTools (\<lambda>s. True) (\<lambda>c. []) (\<lambda>j k. 5) chat_one_tool ''state?'' [quick_server] None =
     ([\<lparr>mp_role = User, mp_content = Str ''state?''\<rparr>,
       \<lparr>mp_role = Assistant, mp_content = Blocks [ToolUse ''toolu_get_5'' ''get'' ''{}'']\<rparr>,
       \<lparr>mp_role = User, mp_content = Blocks [ToolResult ''toolu_5'' (Parsed ''[]'')]\<rparr>,
       \<lparr>mp_role = Assistant, mp_content = Str ''done''\<rparr>],
      Completed)"
  by (simp add: executePromptWithTools_def executePromptWithTools_gen_def tool_loop.simps ollama_chat_def
      MAX_ITERATIONS_def yield_then_def trim_def is_space_def chat_one_tool_def OLLAMA_API_TIMEOUT_def
      has_tool_calls_def done_message_def get_call_def quick_server_def tool_call_message_def
      call_tool_bounded_def TOOL_EXECUTION_TIMEOUT_def convertOllamaMessageToAnthropic_def
      tool_use_id_def tool_result_id_def show_nat.simps digit_char_def Let_def)

section \<open>Properties of the evaluation framework\<close>

lemma foldl_count:
  "foldl (\<lambda>acc needle. if P needle then acc + 1 else acc) (a::int) xs = a + int (length (filter P xs))"
  by (induction xs arbitrary: a) simp_all

lemma foldl_sums:
  "foldl (\<lambda>acc x. (fst acc + score x, snd acc + possible_score x)) (a, b) rs =
     (a + sum_list (map score rs), b + sum_list (map possible_score rs))"
  by (induction rs arbitrary: a b) simp_all

text \<open>
  Claim C8. The content-contains grader, applied to the messages of a run whose final message
  stringifies to \<open>lastMsg\<close>, returns as score the number of needles that occur in \<open>lastMsg\<close>
  and as possible score the number of needles, so that the score lies between 0 and the possible
  score. When \<open>runScenario\<close> returns a result, its \<open>finalScore\<close> and \<open>finalScorePossible\<close> are
  the sums of \<open>score\<close> and of \<open>possible_score\<close> over its grade results, which are the results
  of the graders on the messages of the run.
\<close>

theorem grader_scores:
  "(messagesToString [final_message msgs] = Inr lastMsg \<longrightarrow>
      (\<exists>info. gradeViaSearchForContent messagesToString needles msgs =
         Inr \<lparr>score = int (length (filter (\<lambda>needle. sublist needle lastMsg) needles)),
              possible_score = int (length needles), grader_info = info\<rparr>)
      \<and> 0 \<le> int (length (filter (\<lambda>needle. sublist needle lastMsg) needles))
      \<and> int (length (filter (\<lambda>needle. sublist needle lastMsg) needles)) \<le> int (length needles))
   \<and> (runScenario llm asyncMap prompt tools toolsDesc graders = Inr r \<longrightarrow>
        finalScore r = sum_list (map score (gradeResults r))
        \<and> finalScorePossible r = sum_list (map possible_score (gradeResults r))
        \<and> llm prompt tools = Inr (messages r)
        \<and> asyncMap graders (messages r) = Inr (gradeResults r))"
proof (intro conjI impI)
  assume "messagesToString [final_message msgs] = Inr lastMsg"
  then show "\<exists>info. gradeViaSearchForContent messagesToString needles msgs =
         Inr \<lparr>score = int (length (filter (\<lambda>needle. sublist needle lastMsg) needles)),
              possible_score = int (length needles), grader_info = info\<rparr>"
    by (simp add: gradeViaSearchForContent_def foldl_count Let_def)
next
  show "0 \<le> int (length (filter (\<lambda>needle. sublist needle lastMsg) needles))" by simp
next
  show "int (length (filter (\<lambda>needle. sublist needle lastMsg) needles)) \<le> int (length needles)" by simp
next
  assume run: "runScenario llm asyncMap prompt tools toolsDesc graders = Inr r"
  then obtain ms where ms: "llm prompt tools = Inr ms"
    by (cases "llm prompt tools") (simp_all add: runScenario_def)
  with run obtain rs where rs: "asyncMap graders ms = Inr rs"
    by (cases "asyncMap graders ms") (simp_all add: runScenario_def)
  from run ms rs have r: "r = \<lparr>sr_prompt = prompt, toolsDescription = toolsDesc, messages = ms,
      gradeResults = rs, finalScore = sum_list (map score rs),
      finalScorePossible = sum_list (map possible_score rs)\<rparr>"
    by (simp add: runScenario_def foldl_sums Let_def)
  from r show "finalScore r = sum_list (map score (gradeResults r))" by simp
  from r show "finalScorePossible r = sum_list (map possible_score (gradeResults r))" by simp
  from r ms show "llm prompt tools = Inr (messages r)" by simp
  from r rs show "asyncMap graders (messages r) = Inr (gradeResults r)" by simp
qed

theorem grader_scores_witness:
  "plain_text [final_message [''hello'', ''xabcd'']] = Inr ''xabcd''
   \<and> (\<exists>info. gradeViaSearchForContent plain_text [''ab'', ''zz'', ''cd''] [''hello'', ''xabcd''] =
         Inr \<lparr>score = 2, possible_score = 3, grader_info = info\<rparr>)
   \<and> runScenario example_llm run_graders ''p'' () ''d'' example_graders = Inr example_scenario
   \<and> finalScore example_scenario = sum_list (map score (gradeResults example_scenario))
   \<and> finalScorePossible example_scenario = sum_list (map possible_score (gradeResults example_scenario))"
proof -
  have a: "plain_text [final_message [''hello'', ''xabcd'']] = Inr ''xabcd''"
    by (simp add: plain_text_def final_message_def)
  have b: "length (filter (\<lambda>needle. sublist needle ''xabcd'') [''ab'', ''zz'', ''cd'']) = 2"
    by (simp add: sublist_code prefix_code)
  have c: "runScenario example_llm run_graders ''p'' () ''d'' example_graders = Inr example_scenario"
    by (simp add: runScenario_def example_llm_def example_graders_def example_scenario_def
        gradeViaSearchForContent_def plain_text_def final_message_def sublist_code prefix_code Let_def)
  note t = grader_scores [where messagesToString = plain_text and msgs = "[''hello'', ''xabcd'']"
      and lastMsg = "''xabcd''" and needles = "[''ab'', ''zz'', ''cd'']" and llm = example_llm
      and asyncMap = run_graders and prompt = "''p''" and tools = "()" and toolsDesc = "''d''"
      and graders = example_graders and r = example_scenario]
  from t a b c show ?thesis by simp
qed

section \<open>Properties of the hub client in test mode\<close>

lemma find_mismatch_None:
  "find (\<lambda>e. domain_prefix e \<noteq> d) es = None \<longleftrightarrow> (\<forall>e\<in>set es. domain_prefix e = d)"
  by (auto simp: find_None_iff)

text \<open>
  Claim C5. In test mode \<open>callService\<close> never contacts the hub: the list of messages sent through
  \<open>sendMessagePromise\<close> is left as it was and the outcome does not depend on the hub. When the
  domain prefix of every entity id of the target, a single id or an array, equals the domain of
  the call, the call returns null. When the prefix of some entity id differs from the domain, the
  call fails with an error whose message contains such an entity id and the domain, and the hub is
  not contacted either.
\<close>

theorem test_mode_never_contacts_hub:
  "snd (callService True hub sent options) = sent
   \<and> callService True hub sent options = callService True hub' sent options
   \<and> ((\<forall>e\<in>set (entity_ids (cs_target options)). domain_prefix e = cs_domain options) \<longrightarrow>
        fst (callService True hub sent options) = Inr None)
   \<and> (\<not> (\<forall>e\<in>set (entity_ids (cs_target options)). domain_prefix e = cs_domain options) \<longrightarrow>
        (\<exists>e\<in>set (entity_ids (cs_target options)).
           domain_prefix e \<noteq> cs_domain options
           \<and> fst (callService True hub sent options) =
               Inl (OtherError (domain_mismatch_text e (cs_domain options)))
           \<and> sublist e (domain_mismatch_text e (cs_domain options))
           \<and> sublist (cs_domain options) (domain_mismatch_text e (cs_domain options))))"
proof (intro conjI impI)
  show "snd (callService True hub sent options) = sent"
    by (simp add: callService_def split: option.splits)
next
  show "callService True hub sent options = callService True hub' sent options"
    by (simp add: callService_def)
next
  assume "\<forall>e\<in>set (entity_ids (cs_target options)). domain_prefix e = cs_domain options"
  then have "find (\<lambda>e. domain_prefix e \<noteq> cs_domain options) (entity_ids (cs_target options)) = None"
    by (simp add: find_mismatch_None)
  then show "fst (callService True hub sent options) = Inr None"
    by (simp add: callService_def)
next
  assume "\<not> (\<forall>e\<in>set (entity_ids (cs_target options)). domain_prefix e = cs_domain options)"
  then have "find (\<lambda>e. domain_prefix e \<noteq> cs_domain options) (entity_ids (cs_target options)) \<noteq> None"
    by (simp add: find_mismatch_None)
  then obtain e where e: "find (\<lambda>e. domain_prefix e \<noteq> cs_domain options) (entity_ids (cs_target options)) = Some e"
    by blast
  then have mem: "e \<in> set (entity_ids (cs_target options))" and bad: "domain_prefix e \<noteq> cs_domain options"
    by (auto simp: find_Some_iff)
  from e have res: "fst (callService True hub sent options) =
      Inl (OtherError (domain_mismatch_text e (cs_domain options)))"
    by (simp add: callService_def)
  have s1: "sublist e (domain_mismatch_text e (cs_domain options))"
    unfolding domain_mismatch_text_def by (rule sublist_appendI)
  have "sublist (cs_domain options)
      ((''Entity ID '' @ e @ '' doesn'' @ apos @ ''t match domain '') @ cs_domain options)"
    by (rule sublist_append_leftI)
  then have s2: "sublist (cs_domain options) (domain_mismatch_text e (cs_domain options))"
    by (simp add: domain_mismatch_text_def)
  from mem bad res s1 s2
  show "\<exists>e\<in>set (entity_ids (cs_target options)).
      domain_prefix e \<noteq> cs_domain options
      \<and> fst (callService True hub sent options) =
          Inl (OtherError (domain_mismatch_text e (cs_domain options)))
      \<and> sublist e (domain_mismatch_text e (cs_domain options))
      \<and> sublist (cs_domain options) (domain_mismatch_text e (cs_domain options))"
    by blast
qed

theorem test_mode_never_contacts_hub_witness:
  "domain_prefix ''light.kitchen'' = ''light'' \<and> domain_prefix ''light.living_room'' = ''light''
   \<and> domain_prefix ''switch.porch'' \<noteq> ''light''
   \<and> callService True (\<lambda>m. Inr (Some ''ok'')) [] (light_on (Many [''light.kitchen'', ''light.living_room'']))
        = (Inr None, [])
   \<and> callService True (\<lambda>m. Inr (Some ''ok'')) [] (light_on (Many [''light.kitchen'', ''switch.porch'']))
        = (Inl (OtherError (''Entity ID switch.porch doesn'' @ apos @ ''t match domain light'')), [])"
proof -
  have a: "domain_prefix ''light.kitchen'' = ''light'' \<and> domain_prefix ''light.living_room'' = ''light''
      \<and> domain_prefix ''switch.porch'' \<noteq> ''light''"
    by (simp add: domain_prefix_def)
  note t1 = test_mode_never_contacts_hub [where hub = "\<lambda>m. Inr (Some ''ok'')" and sent = "[]"
      and options = "light_on (Many [''light.kitchen'', ''light.living_room''])"]
  note t2 = test_mode_never_contacts_hub [where hub = "\<lambda>m. Inr (Some ''ok'')" and sent = "[]"
      and options = "light_on (Many [''light.kitchen'', ''switch.porch''])"]
  from a t1 have b: "callService True (\<lambda>m. Inr (Some ''ok'')) []
      (light_on (Many [''light.kitchen'', ''light.living_room''])) = (Inr None, [])"
    by (simp add: light_on_def prod_eq_iff)
  from a t2 have c: "callService True (\<lambda>m. Inr (Some ''ok'')) []
      (light_on (Many [''light.kitchen'', ''switch.porch''])) =
      (Inl (OtherError (''Entity ID switch.porch doesn'' @ apos @ ''t match domain light'')), [])"
    by (simp add: light_on_def prod_eq_iff domain_mismatch_text_def)
  from a b c show ?thesis by simp
qed

section \<open>Properties of the scheduling step\<close>

lemma reschedule_all_alive:
  "\<forall>a\<in>set as. has_alive_signal (signals w) (hash a) \<Longrightarrow> rescheduleAutomations rt w as = (Inr (), w)"
  by (induction as) simp_all

lemma runScheduler_ok:
  assumes "memoryFile rt = Inr memory" "llmLoop rt a memory (signals w) = (Inr msgs, sigs)"
  shows "runSchedulerForAutomation rt w a =
     (Inr (), \<lparr>signals = sigs, automationLogs = automationLogs w @ [determine_signal_row rt a msgs],
               schedulerRuns = schedulerRuns w @ [a]\<rparr>)"
  using assms by (simp add: runSchedulerForAutomation_def)

lemma runScheduler_cases:
  "(\<exists>e. runSchedulerForAutomation rt w a = (Inl e, w))
   \<or> (\<exists>e sigs. runSchedulerForAutomation rt w a =
         (Inl e, \<lparr>signals = sigs, automationLogs = automationLogs w, schedulerRuns = schedulerRuns w @ [a]\<rparr>))
   \<or> (\<exists>msgs sigs. runSchedulerForAutomation rt w a =
         (Inr (), \<lparr>signals = sigs, automationLogs = automationLogs w @ [determine_signal_row rt a msgs],
                   schedulerRuns = schedulerRuns w @ [a]\<rparr>))"
proof (cases "memoryFile rt")
  case (Inl e)
  then show ?thesis by (simp add: runSchedulerForAutomation_def)
next
  case (Inr memory)
  obtain res sigs where l: "llmLoop rt a memory (signals w) = (res, sigs)"
    by (cases "llmLoop rt a memory (signals w)")
  obtain s ls rs where w: "w = \<lparr>signals = s, automationLogs = ls, schedulerRuns = rs\<rparr>"
    by (cases w)
  show ?thesis
  proof (cases res)
    case (Inl e)
    with Inr l show ?thesis by (simp add: runSchedulerForAutomation_def w)
  next
    case (Inr msgs)
    with \<open>memoryFile rt = Inr memory\<close> l show ?thesis by (auto simp: runSchedulerForAutomation_def w)
  qed
qed

lemma reschedule_logs:
  "\<exists>new runs.
     automationLogs (snd (rescheduleAutomations rt w as)) = automationLogs w @ new
     \<and> schedulerRuns (snd (rescheduleAutomations rt w as)) = schedulerRuns w @ runs
     \<and> (\<forall>row\<in>set new. log_type row = DetermineSignal \<and> automationHash row \<in> hash ` set as)
     \<and> set runs \<subseteq> set as
     \<and> length new \<le> length runs
     \<and> (fst (rescheduleAutomations rt w as) = Inr () \<longrightarrow> map automationHash new = map hash runs)"
proof (induction as arbitrary: w)
  case Nil
  show ?case by simp
next
  case (Cons a as)
  show ?case
  proof (cases "has_alive_signal (signals w) (hash a)")
    case True
    from Cons.IH [of w] obtain new runs where
      "automationLogs (snd (rescheduleAutomations rt w as)) = automationLogs w @ new"
      "schedulerRuns (snd (rescheduleAutomations rt w as)) = schedulerRuns w @ runs"
      "\<forall>row\<in>set new. log_type row = DetermineSignal \<and> automationHash row \<in> hash ` set as"
      "set runs \<subseteq> set as" "length new \<le> length runs"
      "fst (rescheduleAutomations rt w as) = Inr () \<longrightarrow> map automationHash new = map hash runs"
      by blast
    with True show ?thesis
      by (intro exI [of _ new] exI [of _ runs]) auto
  next
    case False
    from runScheduler_cases [of rt w a] show ?thesis
    proof (elim disjE exE)
      fix e assume "runSchedulerForAutomation rt w a = (Inl e, w)"
      with False show ?thesis
        by (intro exI [of _ "[]"]) simp
    next
      fix e sigs
      assume "runSchedulerForAutomation rt w a =
         (Inl e, \<lparr>signals = sigs, automationLogs = automationLogs w, schedulerRuns = schedulerRuns w @ [a]\<rparr>)"
      with False show ?thesis
        by (intro exI [of _ "[]"] exI [of _ "[a]"]) simp
    next
      fix msgs sigs
      let ?w' = "\<lparr>signals = sigs, automationLogs = automationLogs w @ [determine_signal_row rt a msgs],
                   schedulerRuns = schedulerRuns w @ [a]\<rparr>"
      assume run: "runSchedulerForAutomation rt w a = (Inr (), ?w')"
      from Cons.IH [of ?w'] obtain new runs where
        "automationLogs (snd (rescheduleAutomations rt ?w' as)) = automationLogs ?w' @ new"
        "schedulerRuns (snd (rescheduleAutomations rt ?w' as)) = schedulerRuns ?w' @ runs"
        "\<forall>row\<in>set new. log_type row = DetermineSignal \<and> automationHash row \<in> hash ` set as"
        "set runs \<subseteq> set as" "length new \<le> length runs"
        "fst (rescheduleAutomations rt ?w' as) = Inr () \<longrightarrow> map automationHash new = map hash runs"
        by blast
      with False run show ?thesis
        by (intro exI [of _ "determine_signal_row rt a msgs # new"] exI [of _ "a # runs"])
           (auto simp: determine_signal_row_def)
    qed
  qed
qed


lemma ollama_runtime_done:
  "llmLoop (ollama_runtime chat_done) a memory sigs =
     (Inr [\<lparr>mp_role = User, mp_content = Str (contents a)\<rparr>,
           \<lparr>mp_role = Assistant, mp_content = Str ''done''\<rparr>], sigs)"
  if "trim (contents a) \<noteq> []"
  using that
  by (simp add: ollama_runtime_def executePromptWithTools_def executePromptWithTools_gen_def
      tool_loop.simps ollama_chat_def MAX_ITERATIONS_def yield_then_def chat_done_def
      OLLAMA_API_TIMEOUT_def has_tool_calls_def done_message_def convertOllamaMessageToAnthropic_def)

text \<open>
  Claim C1, as stated, fails where it promises a log row for every automation without an alive
  signal. Neither automation below has an alive signal; the provider refuses the connection, the
  Ollama loop rethrows the error, and \<open>rescheduleAutomations\<close> fails with it: the scheduling loop
  has been started for the first automation, no \<open>automationLogs\<close> row has been inserted for it,
  and the second automation has not been examined.
\<close>

theorem reschedule_failure_counterexample:
  "\<not> has_alive_signal (signals empty_world) (hash coffee)
   \<and> \<not> has_alive_signal (signals empty_world) (hash porch)
   \<and> rescheduleAutomations (ollama_runtime chat_refused) empty_world [coffee, porch] =
       (Inl (OtherError ''connection refused''),
        \<lparr>signals = [], automationLogs = [], schedulerRuns = [coffee]\<rparr>)"
  by (simp add: has_alive_signal_def empty_world_def coffee_def porch_def runSchedulerForAutomation_def
      ollama_runtime_def executePromptWithTools_def executePromptWithTools_gen_def
      tool_loop.simps ollama_chat_def MAX_ITERATIONS_def yield_then_def chat_refused_def
      OLLAMA_API_TIMEOUT_def trim_def is_space_def)

text \<open>
  Claim C1, amended. Scheduling is idempotent per automation hash. An automation for which the
  \<open>signals\<close> table holds, when the automation is examined, a row with its hash and
  \<open>isDead \<noteq> true\<close> is skipped: the scheduling loop is not started and no row is inserted for it;
  when this is so for every automation of the list, \<open>rescheduleAutomations\<close> changes nothing.
  For an automation without such a row the scheduling loop is run and, when the memory file is
  read and the loop completes, exactly one \<open>automationLogs\<close> row is inserted, of type
  \<open>determine-signal\<close>, with the hash of the automation and the messages of the loop, before the
  rest of the list is examined. When the memory file cannot be read or the loop fails, the error
  leaves \<open>rescheduleAutomations\<close>, no row is inserted for the automation and the rest of the
  list is not examined. Over a whole call the log only grows, by \<open>determine-signal\<close> rows for
  hashes of the list, at most one for each run of the loop and, when the call returns normally,
  exactly one for each run, in the order of the runs.
\<close>

theorem reschedule_idempotent:
  "((\<forall>a\<in>set as. has_alive_signal (signals w) (hash a)) \<longrightarrow>
      rescheduleAutomations rt w as = (Inr (), w))
   \<and> (has_alive_signal (signals w) (hash a) \<longrightarrow>
        rescheduleAutomations rt w (a # as) = rescheduleAutomations rt w as)
   \<and> (\<not> has_alive_signal (signals w) (hash a) \<longrightarrow> memoryFile rt = Inr memory \<longrightarrow>
        llmLoop rt a memory (signals w) = (Inr msgs, sigs) \<longrightarrow>
        rescheduleAutomations rt w (a # as) =
          rescheduleAutomations rt
            \<lparr>signals = sigs,
             automationLogs = automationLogs w @
               [\<lparr>createdAt = nowISO rt, log_type = DetermineSignal, automationHash = hash a,
                 messageLog = msgs\<rparr>],
             schedulerRuns = schedulerRuns w @ [a]\<rparr> as)
   \<and> (\<not> has_alive_signal (signals w) (hash a) \<longrightarrow>
        (memoryFile rt = Inl e \<or> (memoryFile rt = Inr memory \<and> fst (llmLoop rt a memory (signals w)) = Inl e)) \<longrightarrow>
        fst (rescheduleAutomations rt w (a # as)) = Inl e
        \<and> automationLogs (snd (rescheduleAutomations rt w (a # as))) = automationLogs w)
   \<and> (\<exists>new runs.
        automationLogs (snd (rescheduleAutomations rt w as)) = automationLogs w @ new
        \<and> schedulerRuns (snd (rescheduleAutomations rt w as)) = schedulerRuns w @ runs
        \<and> (\<forall>row\<in>set new. log_type row = DetermineSignal \<and> automationHash row \<in> hash ` set as)
        \<and> set runs \<subseteq> set as
        \<and> length new \<le> length runs
        \<and> (fst (rescheduleAutomations rt w as) = Inr () \<longrightarrow> map automationHash new = map hash runs))"
proof (intro conjI impI)
  assume "\<forall>a\<in>set as. has_alive_signal (signals w) (hash a)"
  then show "rescheduleAutomations rt w as = (Inr (), w)" by (rule reschedule_all_alive)
next
  assume "has_alive_signal (signals w) (hash a)"
  then show "rescheduleAutomations rt w (a # as) = rescheduleAutomations rt w as" by simp
next
  assume "\<not> has_alive_signal (signals w) (hash a)" "memoryFile rt = Inr memory"
    "llmLoop rt a memory (signals w) = (Inr msgs, sigs)"
  then show "rescheduleAutomations rt w (a # as) =
      rescheduleAutomations rt
        \<lparr>signals = sigs,
         automationLogs = automationLogs w @
           [\<lparr>createdAt = nowISO rt, log_type = DetermineSignal, automationHash = hash a,
             messageLog = msgs\<rparr>],
         schedulerRuns = schedulerRuns w @ [a]\<rparr> as"
    by (simp add: runScheduler_ok determine_signal_row_def)
next
  assume dead: "\<not> has_alive_signal (signals w) (hash a)"
    and fail: "memoryFile rt = Inl e \<or> (memoryFile rt = Inr memory \<and> fst (llmLoop rt a memory (signals w)) = Inl e)"
  from fail have "fst (runSchedulerForAutomation rt w a) = Inl e
      \<and> automationLogs (snd (runSchedulerForAutomation rt w a)) = automationLogs w"
  proof
    assume "memoryFile rt = Inl e"
    then show ?thesis by (simp add: runSchedulerForAutomation_def)
  next
    assume "memoryFile rt = Inr memory \<and> fst (llmLoop rt a memory (signals w)) = Inl e"
    then show ?thesis
      by (cases "llmLoop rt a memory (signals w)") (simp add: runSchedulerForAutomation_def)
  qed
  with dead show "fst (rescheduleAutomations rt w (a # as)) = Inl e"
    by (cases "runSchedulerForAutomation rt w a") simp
  from \<open>fst (runSchedulerForAutomation rt w a) = Inl e
      \<and> automationLogs (snd (runSchedulerForAutomation rt w a)) = automationLogs w\<close> dead
  show "automationLogs (snd (rescheduleAutomations rt w (a # as))) = automationLogs w"
    by (cases "runSchedulerForAutomation rt w a") simp
next
  show "\<exists>new runs.
      automationLogs (snd (rescheduleAutomations rt w as)) = automationLogs w @ new
      \<and> schedulerRuns (snd (rescheduleAutomations rt w as)) = schedulerRuns w @ runs
      \<and> (\<forall>row\<in>set new. log_type row = DetermineSignal \<and> automationHash row \<in> hash ` set as)
      \<and> set runs \<subseteq> set as
      \<and> length new \<le> length runs
      \<and> (fst (rescheduleAutomations rt w as) = Inr () \<longrightarrow> map automationHash new = map hash runs)"
    by (rule reschedule_logs)
qed

theorem reschedule_idempotent_witness:
  "has_alive_signal (signals coffee_scheduled) (hash coffee)
   \<and> \<not> has_alive_signal (signals coffee_scheduled) (hash porch)
   \<and> rescheduleAutomations (ollama_runtime chat_done) coffee_scheduled [coffee] = (Inr (), coffee_scheduled)
   \<and> rescheduleAutomations (ollama_runtime chat_done) coffee_scheduled [coffee, porch] =
       (Inr (),
        \<lparr>signals = signals coffee_scheduled,
         automationLogs =
           [\<lparr>createdAt = ''2025-01-01T00:00:00.000Z'', log_type = DetermineSignal, automationHash = ''h2'',
             messageLog = [\<lparr>mp_role = User, mp_content = Str (contents porch)\<rparr>,
                           \<lparr>mp_role = Assistant, mp_content = Str ''done''\<rparr>]\<rparr>],
         schedulerRuns = [porch]\<rparr>)"
proof -
  have a: "has_alive_signal (signals coffee_scheduled) (hash coffee)"
    by (simp add: has_alive_signal_def coffee_scheduled_def coffee_def)
  have b: "\<not> has_alive_signal (signals coffee_scheduled) (hash porch)"
    by (simp add: has_alive_signal_def coffee_scheduled_def porch_def)
  have c: "memoryFile (ollama_runtime chat_done) = Inr ''memory''"
    by (simp add: ollama_runtime_def)
  have "trim (contents porch) \<noteq> []"
    by (simp add: trim_def porch_def is_space_def)
  then have d: "llmLoop (ollama_runtime chat_done) porch ''memory'' (signals coffee_scheduled) =
     (Inr [\<lparr>mp_role = User, mp_content = Str (contents porch)\<rparr>,
           \<lparr>mp_role = Assistant, mp_content = Str ''done''\<rparr>], signals coffee_scheduled)"
    by (rule ollama_runtime_done)
  have e: "nowISO (ollama_runtime chat_done) = ''2025-01-01T00:00:00.000Z''"
    by (simp add: ollama_runtime_def)
  have f: "automationLogs coffee_scheduled = [] \<and> schedulerRuns coffee_scheduled = [] \<and> hash porch = ''h2''"
    by (simp add: coffee_scheduled_def porch_def)
  from a reschedule_idempotent [where as = "[coffee]" and w = coffee_scheduled and rt = "ollama_runtime chat_done"]
  have g: "rescheduleAutomations (ollama_runtime chat_done) coffee_scheduled [coffee] = (Inr (), coffee_scheduled)"
    by simp
  from a reschedule_idempotent [where a = coffee and as = "[porch]" and w = coffee_scheduled
      and rt = "ollama_runtime chat_done"]
  have h: "rescheduleAutomations (ollama_runtime chat_done) coffee_scheduled [coffee, porch] =
      rescheduleAutomations (ollama_runtime chat_done) coffee_scheduled [porch]"
    by simp
  from b c d reschedule_idempotent [where a = porch and as = "[]" and w = coffee_scheduled
      and rt = "ollama_runtime chat_done" and memory = "''memory''" and sigs = "signals coffee_scheduled"
      and msgs = "[\<lparr>mp_role = User, mp_content = Str (contents porch)\<rparr>,
           \<lparr>mp_role = Assistant, mp_content = Str ''done''\<rparr>]"]
  have i: "rescheduleAutomations (ollama_runtime chat_done) coffee_scheduled [porch] =
      (Inr (),
        \<lparr>signals = signals coffee_scheduled,
         automationLogs =
           [\<lparr>createdAt = ''2025-01-01T00:00:00.000Z'', log_type = DetermineSignal, automationHash = ''h2'',
             messageLog = [\<lparr>mp_role = User, mp_content = Str (contents porch)\<rparr>,
                           \<lparr>mp_role = Assistant, mp_content = Str ''done''\<rparr>]\<rparr>],
         schedulerRuns = [porch]\<rparr>)"
    by (simp add: e f)
  from a b g h i show ?thesis by simp
qed

section \<open>Properties of the configuration file\<close>

lemma keys_insert_index: "fst ` set (insert_index obj k v) = insert k (fst ` set obj)"
proof (induction obj)
  case Nil
  show ?case by simp
next
  case (Cons e obj)
  obtain k' v' where e: "e = (k', v')" by (cases e)
  show ?case
  proof (cases "is_array_index k' \<and> digits_value k' < digits_value k")
    case True
    then have "insert_index (e # obj) k v = (k', v') # insert_index obj k v"
      by (simp add: e)
    with Cons e show ?thesis by (simp add: insert_commute)
  next
    case False
    then have "insert_index (e # obj) k v = (k, v) # (k', v') # obj"
      by (simp only: e insert_index.simps if_False)
    with e show ?thesis by simp
  qed
qed

lemma map_of_insert_index:
  "k \<notin> fst ` set obj \<Longrightarrow> map_of (insert_index obj k v) k' = (if k' = k then Some v else map_of obj k')"
  by (induction obj) auto

lemma distinct_insert_index:
  "k \<notin> fst ` set obj \<Longrightarrow> distinct (map fst obj) \<Longrightarrow> distinct (map fst (insert_index obj k v))"
proof (induction obj)
  case Nil
  then show ?case by simp
next
  case (Cons e obj)
  obtain k' v' where e: "e = (k', v')" by (cases e)
  from Cons.prems e have k: "k \<noteq> k'" "k \<notin> fst ` set obj" "k' \<notin> fst ` set obj"
    "distinct (map fst obj)"
    by auto
  show ?case
  proof (cases "is_array_index k' \<and> digits_value k' < digits_value k")
    case True
    then have eq: "insert_index (e # obj) k v = (k', v') # insert_index obj k v"
      by (simp add: e)
    from k have "k' \<notin> fst ` set (insert_index obj k v)"
      by (simp add: keys_insert_index)
    moreover from k Cons.IH have "distinct (map fst (insert_index obj k v))" by simp
    ultimately show ?thesis by (simp add: eq)
  next
    case False
    then have eq: "insert_index (e # obj) k v = (k, v) # (k', v') # obj"
      by (simp only: e insert_index.simps if_False)
    from k show ?thesis by (simp add: eq)
  qed
qed

lemma map_of_replace:
  "map_of (map (\<lambda>(k', v'). if k' = k then (k', v) else (k', v')) obj) k' =
     (if k' = k then map_option (\<lambda>x. v) (map_of obj k) else map_of obj k')"
proof (induction obj arbitrary: k')
  case Nil
  show ?case by simp
next
  case (Cons e obj)
  obtain a b where e: "e = (a, b)" by (cases e)
  show ?case
  proof (cases "a = k")
    case True
    with Cons e show ?thesis by simp
  next
    case False
    with Cons e show ?thesis by simp
  qed
qed

lemma keys_replace: "map fst (map (\<lambda>(k', v'). if k' = k then (k', v) else (k', v')) obj) = map fst obj"
  by (induction obj) auto

lemma map_of_js_put:
  assumes "k \<noteq> ''__proto__''"
  shows "map_of (js_put obj k v) k' = (if k' = k then Some v else map_of obj k')"
proof (cases "k \<in> fst ` set obj")
  case True
  then obtain x where "map_of obj k = Some x"
    by (metis map_of_eq_None_iff not_None_eq)
  with True assms show ?thesis
    by (simp add: js_put_def map_of_replace)
next
  case False
  show ?thesis
  proof (cases "is_array_index k")
    case True
    with False assms show ?thesis by (simp add: js_put_def map_of_insert_index)
  next
    case idx: False
    from False have "map_of obj k = None" by (simp add: map_of_eq_None_iff)
    with False idx assms show ?thesis by (simp add: js_put_def map_add_def split: option.split)
  qed
qed

lemma keys_replace_set: "fst ` set (map (\<lambda>(k', v'). if k' = k then (k', v) else (k', v')) obj) = fst ` set obj"
  using keys_replace [of k v obj] by (metis list.set_map)

lemma keys_js_put:
  "fst ` set (js_put obj k v) = (if k = ''__proto__'' then fst ` set obj else insert k (fst ` set obj))"
proof (cases "k = ''__proto__''")
  case True
  then show ?thesis by (simp add: js_put_def)
next
  case np: False
  show ?thesis
  proof (cases "k \<in> fst ` set obj")
    case True
    with np have "js_put obj k v = map (\<lambda>(k', v'). if k' = k then (k', v) else (k', v')) obj"
      by (simp add: js_put_def)
    then have "fst ` set (js_put obj k v) = fst ` set obj"
      by (simp only: keys_replace_set)
    with True np show ?thesis by (simp add: insert_absorb)
  next
    case False
    show ?thesis
    proof (cases "is_array_index k")
      case True
      with False np have "js_put obj k v = insert_index obj k v" by (simp add: js_put_def)
      with np show ?thesis by (simp only: keys_insert_index if_False)
    next
      case idx: False
      with False np have "js_put obj k v = obj @ [(k, v)]" by (simp add: js_put_def)
      with np show ?thesis by simp
    qed
  qed
qed

lemma distinct_js_put: "distinct (map fst obj) \<Longrightarrow> distinct (map fst (js_put obj k v))"
proof -
  assume d: "distinct (map fst obj)"
  show ?thesis
  proof (cases "k = ''__proto__''")
    case True
    with d show ?thesis by (simp add: js_put_def)
  next
    case np: False
    show ?thesis
    proof (cases "k \<in> fst ` set obj")
      case True
      with np have "js_put obj k v = map (\<lambda>(k', v'). if k' = k then (k', v) else (k', v')) obj"
        by (simp add: js_put_def)
      with d show ?thesis by (simp only: keys_replace)
    next
      case False
      show ?thesis
      proof (cases "is_array_index k")
        case True
        with False np have "js_put obj k v = insert_index obj k v" by (simp add: js_put_def)
        with False d show ?thesis by (simp add: distinct_insert_index)
      next
        case idx: False
        with False np have "js_put obj k v = obj @ [(k, v)]" by (simp add: js_put_def)
        with False d show ?thesis by simp
      qed
    qed
  qed
qed




lemma map_of_foldl_js_put:
  "''__proto__'' \<notin> fst ` set es \<Longrightarrow> distinct (map fst es) \<Longrightarrow>
     map_of (foldl (\<lambda>obj (k, v). js_put obj k v) acc es) k =
       (case map_of es k of Some v \<Rightarrow> Some v | None \<Rightarrow> map_of acc k)"
proof (induction es arbitrary: acc)
  case Nil
  show ?case by simp
next
  case (Cons e es)
  obtain k' v' where e: "e = (k', v')" by (cases e)
  from Cons.prems e have np: "k' \<noteq> ''__proto__''" and rest: "''__proto__'' \<notin> fst ` set es"
    "distinct (map fst es)" and fresh: "k' \<notin> fst ` set es"
    by auto
  from fresh have none: "map_of es k' = None" by (simp add: map_of_eq_None_iff)
  from rest have "map_of (foldl (\<lambda>obj (k, v). js_put obj k v) (js_put acc k' v') es) k =
      (case map_of es k of Some v \<Rightarrow> Some v | None \<Rightarrow> map_of (js_put acc k' v') k)"
    by (rule Cons.IH)
  with np none e show ?case
    by (simp add: map_of_js_put split: option.split)
qed

lemma map_of_js_object:
  "''__proto__'' \<notin> fst ` set es \<Longrightarrow> distinct (map fst es) \<Longrightarrow> map_of (js_object es) k = map_of es k"
  using map_of_foldl_js_put [of es "[]" k] by (simp add: js_object_def split: option.split)

lemma map_of_map_values:
  "map_of (map (map_prod id f) es) k = map_option f (map_of es k)"
  by (induction es) auto

lemma keys_map_values: "map fst (map (map_prod id f) es) = map fst es"
  by (induction es) auto

lemma map_of_partition:
  assumes "distinct (map fst es)"
  shows "map_of (filter P es @ filter (\<lambda>e. \<not> P e) es) = map_of es"
proof -
  have "distinct (map fst (filter P es @ filter (\<lambda>e. \<not> P e) es))"
    using assms by (induction es) (auto simp: image_iff)
  moreover have "set (filter P es @ filter (\<lambda>e. \<not> P e) es) = set es" by auto
  ultimately show ?thesis using assms by (simp only: map_of_inject_set)
qed

lemma keys_partition:
  "fst ` set (filter P es @ filter (\<lambda>e. \<not> P e) es) = fst ` set es"
proof -
  have "set (filter P es @ filter (\<lambda>e. \<not> P e) es) = set es" by auto
  then show ?thesis by (simp only:)
qed

lemma distinct_partition:
  assumes "distinct (map fst es)"
  shows "distinct (map fst (filter P es @ filter (\<lambda>e. \<not> P e) es))"
  using assms by (induction es) (auto simp: image_iff)

lemma map_of_reload:
  assumes d: "distinct (map fst S)" and np: "''__proto__'' \<notin> fst ` set S"
  shows "\<exists>P. toml_parse (toml_stringify (TTable S)) = TTable P
      \<and> (\<forall>k. map_of P k = map_option (\<lambda>v. toml_parse (toml_stringify v)) (map_of S k))"
proof -
  let ?S' = "map (map_prod id toml_stringify) S"
  let ?F = "filter is_inline ?S' @ filter (\<lambda>e. \<not> is_inline e) ?S'"
  let ?G = "map (map_prod id toml_parse) ?F"
  have dS': "distinct (map fst ?S')" using d by (simp only: keys_map_values)
  have kS': "fst ` set ?S' = fst ` set S"
    using keys_map_values [of toml_stringify S] by (metis list.set_map)
  have dF: "distinct (map fst ?F)" using dS' by (rule distinct_partition)
  have kF: "fst ` set ?F = fst ` set S" using kS' by (simp only: keys_partition)
  have dG: "distinct (map fst ?G)" using dF by (simp only: keys_map_values)
  have kG: "fst ` set ?G = fst ` set S"
    using keys_map_values [of toml_parse ?F] kF by (metis list.set_map)
  have "map_of (js_object ?G) k = map_option (\<lambda>v. toml_parse (toml_stringify v)) (map_of S k)" for k
  proof -
    from np kG have "''__proto__'' \<notin> fst ` set ?G" by simp
    then have "map_of (js_object ?G) k = map_of ?G k" using dG by (rule map_of_js_object)
    also have "\<dots> = map_option toml_parse (map_of ?F k)" by (rule map_of_map_values)
    also have "map_of ?F = map_of ?S'" using dS' by (rule map_of_partition)
    also have "map_of ?S' k = map_option toml_stringify (map_of S k)" by (rule map_of_map_values)
    finally have "map_of (js_object ?G) k = map_option toml_parse (map_option toml_stringify (map_of S k))" .
    then show ?thesis by (simp only: option.map_comp comp_def)
  qed
  moreover have "toml_parse (toml_stringify (TTable S)) = TTable (js_object ?G)" by simp
  ultimately show ?thesis by blast
qed

lemma map_of_put_if:
  "k \<noteq> ''__proto__'' \<Longrightarrow>
     map_of (put_if x k f obj) k' = (if k' = k \<and> truthy x then Some (f (the x)) else map_of obj k')"
  by (simp add: put_if_def map_of_js_put)

lemma keys_put_if:
  "k \<noteq> ''__proto__'' \<Longrightarrow>
     fst ` set (put_if x k f obj) = (if truthy x then insert k (fst ` set obj) else fst ` set obj)"
  by (simp add: put_if_def keys_js_put)

lemma distinct_put_if: "distinct (map fst obj) \<Longrightarrow> distinct (map fst (put_if x k f obj))"
  by (simp add: put_if_def distinct_js_put)

lemma map_of_js_delete: "map_of (js_delete obj k) k' = (if k' = k then None else map_of obj k')"
  by (induction obj) (auto simp: js_delete_def)

lemma keys_js_delete: "fst ` set (js_delete obj k) = fst ` set obj - {k}"
  by (induction obj) (auto simp: js_delete_def)

lemma distinct_js_delete: "distinct (map fst obj) \<Longrightarrow> distinct (map fst (js_delete obj k))"
  by (induction obj) (auto simp: js_delete_def)




lemma js_put_base_url: "js_put [] ''base_url'' v = [(''base_url'', v)]"
  by (simp add: js_put_def is_array_index_def is_digit_def)

lemma js_put_key: "''key'' \<notin> fst ` set obj \<Longrightarrow> js_put obj ''key'' v = obj @ [(''key'', v)]"
  by (simp add: js_put_def is_array_index_def is_digit_def)

















lemma distinct_tomlStructure: "distinct (map fst (tomlStructure c))"
  by (simp add: tomlStructure_def Let_def distinct_put_if distinct_js_put distinct_js_delete
      split: option.split)

lemma no_proto_tomlStructure: "''__proto__'' \<notin> fst ` set (tomlStructure c)"
  by (simp add: tomlStructure_def Let_def keys_put_if keys_js_put keys_js_delete split: option.split)



lemma lookup_openai:
  "map_of (tomlStructure c) ''openai'' =
     (case openAIProviders c of
        None \<Rightarrow> None
      | Some ps \<Rightarrow> if ps = [] \<or> foldl save_provider [] ps = [] then None
                   else Some (TTable (foldl save_provider [] ps)))"
  by (simp add: tomlStructure_def Let_def map_of_put_if map_of_js_put map_of_js_delete
      split: option.split)

lemma reload_leaf_sections:
  "toml_parse (toml_stringify (TTable [(''key'', TString s)])) = TTable [(''key'', TString s)]"
  "toml_parse (toml_stringify (TTable [(''host'', TString s)])) = TTable [(''host'', TString s)]"
  by (simp_all add: js_object_def js_put_def is_array_index_def is_digit_def)


lemma optional_value: "nonempty_if_defined x \<Longrightarrow> (if truthy x then Some (the x) else None) = x"
  by (cases x) (simp_all add: truthy_def nonempty_if_defined_def)

lemma not_index_names:
  "\<not> is_array_index ''google''" "\<not> is_array_index ''scaleway''" "\<not> is_array_index ''openai''"
  "\<not> is_array_index ''key''" "\<not> is_array_index ''base_url''" "is_array_index ''7''"
  by (simp_all add: is_array_index_def is_digit_def digits_value_def)

lemma loaded_providers:
  "openAIProviders (loadConfig (saveConfig c)) =
     (case openAIProviders c of
        None \<Rightarrow> None
      | Some ps \<Rightarrow>
          if ps = [] \<or> foldl save_provider [] ps = [] then None
          else (case toml_parse (toml_stringify (TTable (foldl save_provider [] ps))) of
                  TString s \<Rightarrow> None
                | TTable t \<Rightarrow> if concat (map load_provider t) = [] then None
                              else Some (concat (map load_provider t))))"
proof -
  let ?S = "tomlStructure c"
  from map_of_reload [OF distinct_tomlStructure no_proto_tomlStructure, of c]
  obtain P where P: "toml_parse (toml_stringify (TTable ?S)) = TTable P"
    and look: "\<And>k. map_of P k = map_option (\<lambda>v. toml_parse (toml_stringify v)) (map_of ?S k)"
    by blast
  have "openAIProviders (loadConfig (saveConfig c)) =
      (let providers = (case get_table P ''openai'' of None \<Rightarrow> []
                               | Some openai \<Rightarrow> concat (map load_provider openai))
       in if length providers = 0 then None else Some providers)"
    by (simp only: loadConfig_def saveConfig_def P toml.case Let_def app_config.simps)
  also have "\<dots> =
     (case openAIProviders c of
        None \<Rightarrow> None
      | Some ps \<Rightarrow>
          if ps = [] \<or> foldl save_provider [] ps = [] then None
          else (case toml_parse (toml_stringify (TTable (foldl save_provider [] ps))) of
                  TString s \<Rightarrow> None
                | TTable t \<Rightarrow> if concat (map load_provider t) = [] then None
                              else Some (concat (map load_provider t))))"
  proof (cases "openAIProviders c")
    case None
    then show ?thesis by (simp add: get_table_def look lookup_openai)
  next
    case (Some ps)
    show ?thesis
    proof (cases "ps = [] \<or> foldl save_provider [] ps = []")
      case True
      with Some show ?thesis by (simp add: get_table_def look lookup_openai)
    next
      case False
      with Some have "map_of ?S ''openai'' = Some (TTable (foldl save_provider [] ps))"
        by (simp add: lookup_openai)
      then have m: "map_of P ''openai'' =
          Some (toml_parse (toml_stringify (TTable (foldl save_provider [] ps))))"
        by (simp only: look option.map)
      obtain t where t: "toml_parse (toml_stringify (TTable (foldl save_provider [] ps))) = TTable t"
        by simp
      from m t have "get_table P ''openai'' = Some t" by (simp add: get_table_def)
      with Some False t show ?thesis by (simp del: toml_parse.simps toml_stringify.simps)
    qed
  qed
  finally show ?thesis .
qed






text \<open>
  Three more configurations that do not come back as they were, one for each of the other
  conditions on the list of providers: the default provider after a named one is loaded first,
  since the file holds the string value \<open>key\<close> before the sub-tables; a provider whose name is
  an array index is loaded before the others, since an object enumerates such keys first; and a
  provider without a name is not written.
\<close>

lemma save_google_default:
  "foldl save_provider [] [google ''k1'', openai_default] =
     [(''google'', TTable [(''base_url'', TString ''u''), (''key'', TString ''k1'')]), (''key'', TString ''k0'')]"
  by (simp add: google_def openai_default_def save_provider_def Let_def put_if_def truthy_def
      js_put_base_url js_put_key js_put_def not_index_names)

lemma reload_google_default:
  "toml_parse (toml_stringify (TTable
       [(''google'', TTable [(''base_url'', TString ''u''), (''key'', TString ''k1'')]), (''key'', TString ''k0'')]))
     = TTable [(''key'', TString ''k0''), (''google'', TTable [(''base_url'', TString ''u''), (''key'', TString ''k1'')])]"
  by (simp add: js_object_def js_put_def not_index_names)

lemma save_google_seven:
  "foldl save_provider [] [google ''k1'', seven] =
     [(''7'', TTable [(''base_url'', TString ''u''), (''key'', TString ''k7'')]),
      (''google'', TTable [(''base_url'', TString ''u''), (''key'', TString ''k1'')])]"
  by (simp add: google_def seven_def save_provider_def Let_def put_if_def truthy_def
      js_put_base_url js_put_key js_put_def not_index_names)

lemma reload_google_seven:
  "toml_parse (toml_stringify (TTable
       [(''7'', TTable [(''base_url'', TString ''u''), (''key'', TString ''k7'')]),
        (''google'', TTable [(''base_url'', TString ''u''), (''key'', TString ''k1'')])]))
     = TTable [(''7'', TTable [(''base_url'', TString ''u''), (''key'', TString ''k7'')]),
        (''google'', TTable [(''base_url'', TString ''u''), (''key'', TString ''k1'')])]"
  by (simp add: js_object_def js_put_def not_index_names)

lemma save_nameless: "foldl save_provider [] [nameless] = []"
  by (simp add: nameless_def save_provider_def truthy_def)

lemma default_provider_moves_first:
  "openAIProviders (loadConfig (saveConfig (bare_config [google ''k1'', openai_default])))
     = Some [openai_default, google ''k1'']"
proof -
  have b: "openAIProviders (bare_config [google ''k1'', openai_default]) = Some [google ''k1'', openai_default]"
    by (simp add: bare_config_def)
  show ?thesis
    by (simp only: loaded_providers b option.case save_google_default reload_google_default)
       (simp add: get_string_def google_def openai_default_def)
qed

lemma index_named_provider_moves_first:
  "openAIProviders (loadConfig (saveConfig (bare_config [google ''k1'', seven])))
     = Some [seven, google ''k1'']"
proof -
  have b: "openAIProviders (bare_config [google ''k1'', seven]) = Some [google ''k1'', seven]"
    by (simp add: bare_config_def)
  show ?thesis
    by (simp only: loaded_providers b option.case save_google_seven reload_google_seven)
       (simp add: get_string_def google_def seven_def)
qed

lemma nameless_provider_dropped:
  "openAIProviders (loadConfig (saveConfig (bare_config [nameless]))) = None"
proof -
  have b: "openAIProviders (bare_config [nameless]) = Some [nameless]"
    by (simp add: bare_config_def)
  show ?thesis
    by (simp only: loaded_providers b option.case save_nameless) simp
qed

end
